theory Spec2Isabelle
  imports Complex_Main "HOL-Library.Multiset" "HOL-Library.Log_Nat"
begin

section \<open>Data model of the design document\<close>

text \<open>
  The generator of \<^verbatim>\<open>server.js\<close> reads a parsed JSON tree. A JavaScript number is a
  finite double, held as the \<^typ>\<open>real\<close> it denotes (the two zeros are one number: the
  generator never divides, and both print as \<open>0\<close>). An optional field is an
  \<^typ>\<open>'a option\<close>, \<open>None\<close> standing for \<^verbatim>\<open>undefined\<close>. The opacity of a fill keeps its
  JavaScript type, since the code tests it with \<^verbatim>\<open>typeof\<close>.
\<close>

datatype jsval = Undefined | Null | Num real | Str string | Bool bool

record color =
  color_r :: "real option"
  color_g :: "real option"
  color_b :: "real option"

record fill =
  fill_type :: string
  fill_color :: "color option"
  fill_opacity :: jsval

record box =
  box_x :: real
  box_y :: real
  box_width :: real
  box_height :: real

record style =
  fontSize :: "real option"

datatype node = Node
  (node_id: string)
  (node_name: string)
  (node_type: string)
  (absoluteBoundingBox: "box option")
  (fills: "fill list option")
  (characters: "string option")
  (style: "style option")
  (children: "node list option")

record fileJson =
  document :: node

datatype error = Error string

text \<open>The children of a node, an absent \<^verbatim>\<open>children\<close> field read as no child.\<close>

definition kids :: "node \<Rightarrow> node list" where
  "kids n = (case children n of None \<Rightarrow> [] | Some cs \<Rightarrow> cs)"

fun count_nodes :: "node \<Rightarrow> nat" where
  "count_nodes (Node i nm t bx fs cs st ch) =
     Suc (case ch of None \<Rightarrow> 0 | Some ns \<Rightarrow> sum_list (map count_nodes ns))"

section \<open>JavaScript helpers\<close>

text \<open>
  Arithmetic on doubles. The exact result of an operation is rounded to the nearest
  double, a tie to the one with an even significand: \<open>fl v\<close> is the multiple of the unit
  in the last place \<open>2\<^sup>e\<^sup>-\<^sup>5\<^sup>2\<close> nearest to \<open>v\<close>, where \<open>2\<^sup>e\<close> is the power of two at or below
  \<open>\<bar>v\<bar>\<close> and \<open>e\<close> is at least \<open>-1022\<close> (below that the doubles are subnormal). Results
  beyond the largest double, which the runtime turns into \<^verbatim>\<open>Infinity\<close>, lie outside the
  model.
\<close>

definition pow2 :: "int \<Rightarrow> real" where
  "pow2 k = (if 0 \<le> k then 2 ^ nat k else 1 / 2 ^ nat (- k))"

text \<open>For \<open>v > 0\<close>, the exponent \<open>e\<close> with \<open>2\<^sup>e \<le> v < 2\<^sup>e\<^sup>+\<^sup>1\<close>.\<close>

definition binade :: "real \<Rightarrow> int" where
  "binade v = (if 1 \<le> v then bitlen \<lfloor>v\<rfloor> - 1 else - bitlen (\<lceil>1 / v\<rceil> - 1))"

definition round_half_even :: "real \<Rightarrow> int" where
  "round_half_even v =
     (if v - of_int \<lfloor>v\<rfloor> < 1 / 2 then \<lfloor>v\<rfloor>
      else if 1 / 2 < v - of_int \<lfloor>v\<rfloor> then \<lfloor>v\<rfloor> + 1
      else if even \<lfloor>v\<rfloor> then \<lfloor>v\<rfloor>
      else \<lfloor>v\<rfloor> + 1)"

definition ulp :: "real \<Rightarrow> real" where
  "ulp v = pow2 (max (binade \<bar>v\<bar>) (- 1022) - 52)"

definition fl :: "real \<Rightarrow> real" where
  "fl v = (if v = 0 then 0 else sgn v * (of_int (round_half_even (\<bar>v\<bar> / ulp v)) * ulp v))"

text \<open>The operators \<^verbatim>\<open>a - b\<close> and \<open>a * b\<close> on numbers.\<close>

definition num_sub :: "real \<Rightarrow> real \<Rightarrow> real" where
  "num_sub a b = fl (a - b)"

definition num_mul :: "real \<Rightarrow> real \<Rightarrow> real" where
  "num_mul a b = fl (a * b)"

text \<open>
  \<^verbatim>\<open>Math.round\<close> yields the integer nearest to its argument, a tie going to the larger
  one: it is \<open>\<lfloor>v + 1/2\<rfloor>\<close>, the constant \<^const>\<open>round\<close>, with \<open>round (-5/2) = -2\<close>.
\<close>

text \<open>\<^verbatim>\<open>v || 0\<close> on a number \<open>v\<close>: the only falsy number of the model is zero.\<close>

definition or_zero :: "real \<Rightarrow> real" where
  "or_zero v = (if v = 0 then 0 else v)"

text \<open>\<^verbatim>\<open>s.replace(/c/g, r)\<close> for a one-character pattern \<open>c\<close>.\<close>

definition replace_all :: "char \<Rightarrow> string \<Rightarrow> string \<Rightarrow> string" where
  "replace_all c r s = concat (map (\<lambda>ch. if ch = c then r else [ch]) s)"

text \<open>\<^verbatim>\<open>parts.join(sep)\<close>.\<close>

fun join :: "string \<Rightarrow> string list \<Rightarrow> string" where
  "join sep [] = []"
| "join sep [p] = p"
| "join sep (p # q # ps) = p @ sep @ join sep (q # ps)"

text \<open>
  Template literals print numbers with the number-to-string conversion of the JavaScript
  runtime. It is no code of the repository, so every function that prints a number takes
  it as the parameter \<open>str\<close>. The function \<open>decimal\<close> is that conversion on the integers
  below \<open>10\<^sup>2\<^sup>1\<close> in absolute value, which are printed in decimal digits; the examples
  apply it to such numbers only.
\<close>

fun digits :: "nat \<Rightarrow> string" where
  "digits k =
     (if k < 10 then [''0123456789'' ! k]
      else digits (k div 10) @ [''0123456789'' ! (k mod 10)])"

definition decimal :: "real \<Rightarrow> string" where
  "decimal v = (if v < 0 then CHR ''-'' # digits (nat (- \<lfloor>v\<rfloor>)) else digits (nat \<lfloor>v\<rfloor>))"

section \<open>Colours\<close>

definition colorObjToRgba :: "(real \<Rightarrow> string) \<Rightarrow> color \<Rightarrow> jsval \<Rightarrow> string" where
  "colorObjToRgba str c a0 =
     (let a = (if a0 = Undefined then Num 1 else a0);
          r = round (num_mul (case color_r c of None \<Rightarrow> 0 | Some v \<Rightarrow> v) 255);
          g = round (num_mul (case color_g c of None \<Rightarrow> 0 | Some v \<Rightarrow> v) 255);
          b = round (num_mul (case color_b c of None \<Rightarrow> 0 | Some v \<Rightarrow> v) 255);
          alpha = (case a of Num v \<Rightarrow> v | _ \<Rightarrow> 1)
      in ''rgba('' @ str (of_int r) @ '', '' @ str (of_int g) @ '', '' @ str (of_int b)
           @ '', '' @ str alpha @ '')'')"

definition fillToCssColor :: "(real \<Rightarrow> string) \<Rightarrow> fill option \<Rightarrow> string option" where
  "fillToCssColor str fill =
     (case fill of
        None \<Rightarrow> None
      | Some f \<Rightarrow>
          (case fill_color f of
             Some c \<Rightarrow>
               if fill_type f = ''SOLID'' then
                 (let a = (case fill_opacity f of
                             Num v \<Rightarrow> Num v
                           | Undefined \<Rightarrow> Num 1
                           | Null \<Rightarrow> Num 1
                           | other \<Rightarrow> other)
                  in Some (colorObjToRgba str c a))
               else None
           | None \<Rightarrow> None))"

section \<open>Text escaping\<close>

definition escapeJsxText :: "string \<Rightarrow> string" where
  "escapeJsxText s =
     replace_all (CHR ''>'') ''&gt;''
       (replace_all (CHR ''<'') ''&lt;''
         (replace_all (CHR ''&'') ''&amp;'' s))"

section \<open>One node to one fragment\<close>

definition nodeToJsx_box :: "node \<Rightarrow> box" where
  "nodeToJsx_box n =
     (case absoluteBoundingBox n of
        Some bx \<Rightarrow> bx
      | None \<Rightarrow> \<lparr>box_x = 0, box_y = 0, box_width = 0, box_height = 0\<rparr>)"

definition nodeToJsx_left :: "node \<Rightarrow> box option \<Rightarrow> int" where
  "nodeToJsx_left n frameBox =
     round (num_sub (box_x (nodeToJsx_box n))
              (case frameBox of None \<Rightarrow> 0 | Some fb \<Rightarrow> or_zero (box_x fb)))"

definition nodeToJsx_top :: "node \<Rightarrow> box option \<Rightarrow> int" where
  "nodeToJsx_top n frameBox =
     round (num_sub (box_y (nodeToJsx_box n))
              (case frameBox of None \<Rightarrow> 0 | Some fb \<Rightarrow> or_zero (box_y fb)))"

definition nodeToJsx_width :: "node \<Rightarrow> int" where
  "nodeToJsx_width n = round (or_zero (box_width (nodeToJsx_box n)))"

definition nodeToJsx_height :: "node \<Rightarrow> int" where
  "nodeToJsx_height n = round (or_zero (box_height (nodeToJsx_box n)))"

text \<open>The variable \<^verbatim>\<open>bg\<close>; a string is truthy when it is not empty.\<close>

definition nodeToJsx_bg :: "(real \<Rightarrow> string) \<Rightarrow> node \<Rightarrow> string option" where
  "nodeToJsx_bg str n =
     (case fills n of
        None \<Rightarrow> None
      | Some [] \<Rightarrow> None
      | Some (f # fs) \<Rightarrow>
          (case fillToCssColor str (Some f) of
             None \<Rightarrow> None
           | Some cssC \<Rightarrow> if cssC \<noteq> [] then Some cssC else None))"

text \<open>The variable \<^verbatim>\<open>fontSize\<close> of the \<^verbatim>\<open>TEXT\<close> branch.\<close>

definition nodeToJsx_fontSize :: "node \<Rightarrow> real option" where
  "nodeToJsx_fontSize n =
     (case style n of
        None \<Rightarrow> None
      | Some st \<Rightarrow>
          (case fontSize st of
             None \<Rightarrow> None
           | Some v \<Rightarrow> if v \<noteq> 0 then Some v else None))"

text \<open>The array \<^verbatim>\<open>styleParts\<close> when the fragment is returned.\<close>

definition nodeToJsx_styleParts :: "(real \<Rightarrow> string) \<Rightarrow> node \<Rightarrow> box option \<Rightarrow> string list" where
  "nodeToJsx_styleParts str n frameBox =
     [''position: 'absolute'' @ [CHR 0x27],
      ''left: '' @ str (of_int (nodeToJsx_left n frameBox)) @ ''px'',
      ''top: '' @ str (of_int (nodeToJsx_top n frameBox)) @ ''px'',
      ''width: '' @ str (of_int (nodeToJsx_width n)) @ ''px'',
      ''height: '' @ str (of_int (nodeToJsx_height n)) @ ''px'']
     @ (case nodeToJsx_bg str n of
          None \<Rightarrow> []
        | Some bg \<Rightarrow> if bg \<noteq> [] then [''background: '' @ [CHR 0x27] @ bg @ [CHR 0x27]] else [])
     @ (if node_type n = ''TEXT'' then
          (case nodeToJsx_fontSize n of
             None \<Rightarrow> []
           | Some fs \<Rightarrow> if fs \<noteq> 0 then [''fontSize: '' @ str fs @ ''px''] else [])
        else [])"

text \<open>What stands between the tags: \<^verbatim>\<open>text\<close> for a \<^verbatim>\<open>TEXT\<close> node, \<^verbatim>\<open>content\<close> otherwise.\<close>

definition nodeToJsx_content :: "node \<Rightarrow> string" where
  "nodeToJsx_content n =
     (if node_type n = ''TEXT'' then
        escapeJsxText (case characters n of None \<Rightarrow> [] | Some cs \<Rightarrow> cs)
      else
        (case children n of
           None \<Rightarrow> []
         | Some [] \<Rightarrow> []
         | Some (c # cs) \<Rightarrow> ''{/* children inserted by generator */}''))"

definition nodeToJsx :: "(real \<Rightarrow> string) \<Rightarrow> node \<Rightarrow> box option \<Rightarrow> string" where
  "nodeToJsx str n frameBox =
     ''<div style={{'' @ join '', '' (nodeToJsx_styleParts str n frameBox) @ ''}}>''
       @ nodeToJsx_content n @ ''</div>''"

section \<open>Locating the frame\<close>

text \<open>
  The loop of the branch that searches a node by its id. \<^verbatim>\<open>stack.shift()\<close> takes the
  head of the list and \<^verbatim>\<open>stack.push(...n.children)\<close> appends at its end. A list of
  nodes holds no \<^verbatim>\<open>null\<close>, so the test \<^verbatim>\<open>if (!n) continue\<close> never fires.
\<close>

function findFrameNode_byId :: "string \<Rightarrow> node list \<Rightarrow> node option" where
  "findFrameNode_byId nodeId [] = None"
| "findFrameNode_byId nodeId (n # stack) =
     (if node_id n = nodeId then Some n
      else findFrameNode_byId nodeId (case children n of None \<Rightarrow> stack | Some cs \<Rightarrow> stack @ cs))"
  by pat_completeness auto
termination
proof (relation "measure (\<lambda>(nodeId, stack). sum_list (map count_nodes stack))")
  show "wf (measure (\<lambda>(nodeId, stack). sum_list (map count_nodes stack)))"
    by simp
next
  fix nodeId :: string and n :: node and stack :: "node list"
  show "((nodeId, case children n of None \<Rightarrow> stack | Some cs \<Rightarrow> stack @ cs), nodeId, n # stack)
          \<in> measure (\<lambda>(nodeId, stack). sum_list (map count_nodes stack))"
    by (cases n) (simp split: option.split)
qed

text \<open>The inner loop over the children of one page.\<close>

fun findFrameNode_page :: "node list \<Rightarrow> node option" where
  "findFrameNode_page [] = None"
| "findFrameNode_page (child # rest) =
     (if node_type child = ''FRAME'' \<or> node_type child = ''COMPONENT''
         \<or> node_type child = ''INSTANCE'' \<or> node_type child = ''GROUP''
         \<or> node_type child = ''RECTANGLE''
      then Some child
      else findFrameNode_page rest)"

text \<open>The outer loop over the pages.\<close>

fun findFrameNode_pages :: "node list \<Rightarrow> node option" where
  "findFrameNode_pages [] = None"
| "findFrameNode_pages (page # rest) =
     (case children page of
        None \<Rightarrow> findFrameNode_pages rest
      | Some cs \<Rightarrow>
          (case findFrameNode_page cs of
             Some child \<Rightarrow> Some child
           | None \<Rightarrow> findFrameNode_pages rest))"

text \<open>The last loop: any \<^verbatim>\<open>FRAME\<close> deeper in the tree.\<close>

function findFrameNode_deep :: "node list \<Rightarrow> node option" where
  "findFrameNode_deep [] = None"
| "findFrameNode_deep (n # stack) =
     (if node_type n = ''FRAME'' then Some n
      else findFrameNode_deep (case children n of None \<Rightarrow> stack | Some cs \<Rightarrow> stack @ cs))"
  by pat_completeness auto
termination
proof (relation "measure (\<lambda>stack. sum_list (map count_nodes stack))")
  show "wf (measure (\<lambda>stack. sum_list (map count_nodes stack)))"
    by simp
next
  fix n :: node and stack :: "node list"
  show "((case children n of None \<Rightarrow> stack | Some cs \<Rightarrow> stack @ cs), n # stack)
          \<in> measure (\<lambda>stack. sum_list (map count_nodes stack))"
    by (cases n) (simp split: option.split)
qed

text \<open>\<^verbatim>\<open>if (nodeId)\<close> holds for a string that is not empty.\<close>

definition findFrameNode :: "node \<Rightarrow> string option \<Rightarrow> node option" where
  "findFrameNode documentNode nodeId =
     (case nodeId of
        Some (c # cs) \<Rightarrow> findFrameNode_byId (c # cs) [documentNode]
      | _ \<Rightarrow>
          (case children documentNode of
             None \<Rightarrow> None
           | Some pages \<Rightarrow>
               (case findFrameNode_pages pages of
                  Some child \<Rightarrow> Some child
                | None \<Rightarrow> findFrameNode_deep pages)))"

section \<open>Flattening a subtree\<close>

text \<open>The loop of \<^verbatim>\<open>traverseAndGenerate\<close>, with the array \<^verbatim>\<open>jsxParts\<close> as accumulator.\<close>

function traverseAndGenerate_loop ::
  "(real \<Rightarrow> string) \<Rightarrow> box option \<Rightarrow> node list \<Rightarrow> string list \<Rightarrow> string list" where
  "traverseAndGenerate_loop str frameBox [] jsxParts = jsxParts"
| "traverseAndGenerate_loop str frameBox (n # stack) jsxParts =
     traverseAndGenerate_loop str frameBox
       (case children n of
          None \<Rightarrow> stack
        | Some cs \<Rightarrow> if length cs \<noteq> 0 then stack @ cs else stack)
       (jsxParts @ [nodeToJsx str n frameBox])"
  by pat_completeness auto
termination
proof (relation "measure (\<lambda>(str, frameBox, stack, jsxParts). sum_list (map count_nodes stack))")
  show "wf (measure (\<lambda>(str :: real \<Rightarrow> string, frameBox :: box option, stack, jsxParts :: string list).
              sum_list (map count_nodes stack)))"
    by simp
next
  fix str :: "real \<Rightarrow> string" and frameBox :: "box option" and n :: node
    and stack :: "node list" and jsxParts :: "string list"
  show "((str, frameBox,
          (case children n of None \<Rightarrow> stack | Some cs \<Rightarrow> if length cs \<noteq> 0 then stack @ cs else stack),
          jsxParts @ [nodeToJsx str n frameBox]),
         str, frameBox, n # stack, jsxParts)
          \<in> measure (\<lambda>(str, frameBox, stack, jsxParts). sum_list (map count_nodes stack))"
    by (cases n) (simp split: option.split)
qed

definition traverseAndGenerate_parts :: "(real \<Rightarrow> string) \<Rightarrow> node list \<Rightarrow> box option \<Rightarrow> string list" where
  "traverseAndGenerate_parts str nodes frameBox = traverseAndGenerate_loop str frameBox nodes []"

definition traverseAndGenerate :: "(real \<Rightarrow> string) \<Rightarrow> node list \<Rightarrow> box option \<Rightarrow> string" where
  "traverseAndGenerate str nodes frameBox =
     join ''\<newline>'' (traverseAndGenerate_parts str nodes frameBox)"

section \<open>Assembling the artifacts\<close>

definition reactAppFromFrame :: "(real \<Rightarrow> string) \<Rightarrow> node \<Rightarrow> string" where
  \<open>reactAppFromFrame str frameNode =
     (let frameBox = (case absoluteBoundingBox frameNode of
                        Some bx \<Rightarrow> bx
                      | None \<Rightarrow> \<lparr>box_x = 0, box_y = 0, box_width = 800, box_height = 600\<rparr>);
          children = (case children frameNode of None \<Rightarrow> [] | Some cs \<Rightarrow> cs);
          childrenJsx = traverseAndGenerate str children (Some frameBox)
      in ''import React from "react";\<newline>''
         @ ''\<newline>''
         @ ''export default function App() {\<newline>''
         @ ''  return (\<newline>''
         @ ''    <div style={{ position: 'relative', width: ''
         @ str (of_int (round (box_width frameBox)))
         @ '' , height: ''
         @ str (of_int (round (box_height frameBox)))
         @ '', border: '1px solid #e5e7eb' }}>\<newline>''
         @ ''      '' @ childrenJsx @ ''\<newline>''
         @ ''    </div>\<newline>''
         @ ''  );\<newline>''
         @ ''}\<newline>'')\<close>

definition indexHtml :: string where
  \<open>indexHtml =
     ''<!doctype html>\<newline>''
     @ ''<html>\<newline>''
     @ ''  <head>\<newline>''
     @ ''    <meta charset="utf-8" />\<newline>''
     @ ''    <meta name="viewport" content="width=device-width, initial-scale=1.0" />\<newline>''
     @ ''    <title>Figma Generated App</title>\<newline>''
     @ ''  </head>\<newline>''
     @ ''  <body>\<newline>''
     @ ''    <div id="root"></div>\<newline>''
     @ ''    <script type="module">\<newline>''
     @ ''      import React from "react";\<newline>''
     @ ''      import { createRoot } from "react-dom/client";\<newline>''
     @ ''      import App from "./App.jsx";\<newline>''
     @ ''      const root = createRoot(document.getElementById("root"));\<newline>''
     @ ''      root.render(React.createElement(App));\<newline>''
     @ ''    </script>\<newline>''
     @ ''  </body>\<newline>''
     @ ''</html>\<newline>''\<close>

text \<open>The value of \<^verbatim>\<open>JSON.stringify(pkg, null, 2)\<close> on the constant \<^verbatim>\<open>pkg\<close>.\<close>

definition packageJson :: string where
  \<open>packageJson =
     ''{\<newline>''
     @ ''  "name": "figma-generated-app",\<newline>''
     @ ''  "version": "0.0.0",\<newline>''
     @ ''  "private": true,\<newline>''
     @ ''  "scripts": {\<newline>''
     @ ''    "dev": "vite"\<newline>''
     @ ''  },\<newline>''
     @ ''  "dependencies": {\<newline>''
     @ ''    "react": "^18.2.0",\<newline>''
     @ ''    "react-dom": "^18.2.0"\<newline>''
     @ ''  },\<newline>''
     @ ''  "devDependencies": {\<newline>''
     @ ''    "vite": "^5.0.0"\<newline>''
     @ ''  }\<newline>''
     @ ''}''\<close>

definition readmeFull :: string where
  \<open>readmeFull =
     ''This code was auto-generated from a Figma file by a local MCP server.\<newline>''
     @ ''Run:\<newline>''
     @ ''  npm install\<newline>''
     @ ''  npm run dev\<newline>''
     @ ''Then open: http://localhost:5173 (Vite default)\<newline>''\<close>

text \<open>
  The function is \<^verbatim>\<open>async\<close>: its promise is fulfilled with the object of artifacts
  (\<open>Inr\<close>, the keys in the order of the object literal) or rejected with the thrown error
  (\<open>Inl\<close>). The parameter \<^verbatim>\<open>opts\<close> is never read.
\<close>

definition generateFilesFromFigmaFile ::
  "(real \<Rightarrow> string) \<Rightarrow> fileJson \<Rightarrow> string option \<Rightarrow> error + (string \<times> string) list" where
  "generateFilesFromFigmaFile str fileJson nodeId =
     (let doc = document fileJson in
      case findFrameNode doc nodeId of
        None \<Rightarrow>
          (let fallback =
                 (case children doc of
                    None \<Rightarrow> None
                  | Some [] \<Rightarrow> None
                  | Some (page # pages) \<Rightarrow>
                      (case children page of
                         None \<Rightarrow> None
                       | Some [] \<Rightarrow> None
                       | Some (child # rest) \<Rightarrow> Some child))
           in case fallback of
                None \<Rightarrow> Inl (Error ''No frame found in file.'')
              | Some fb \<Rightarrow>
                  Inr [(''App.jsx'', reactAppFromFrame str fb),
                       (''README.md'',
                        ''Generated from Figma file: fallback frame ('' @ node_name fb @ '')'')])
      | Some frame \<Rightarrow>
          Inr [(''App.jsx'', reactAppFromFrame str frame),
               (''index.html'', indexHtml),
               (''package.json'', packageJson),
               (''README.md'', readmeFull)])"

section \<open>Breadth-first order, stated without a queue\<close>

text \<open>
  The breadth-first order of a forest, level by level: the given nodes in their order,
  then the breadth-first order of all their children, each node's children in the
  order of its \<^verbatim>\<open>children\<close> field.
\<close>

function bfs_order :: "node list \<Rightarrow> node list" where
  "bfs_order [] = []"
| "bfs_order (n # ns) = (n # ns) @ bfs_order (concat (map kids (n # ns)))"
  by pat_completeness auto
termination
proof (relation "measure (\<lambda>ns. sum_list (map count_nodes ns))")
  show "wf (measure (\<lambda>ns. sum_list (map count_nodes ns)))"
    by simp
next
  fix n :: node and ns :: "node list"
  have step: "sum_list (map count_nodes (concat (map kids xs))) + length xs
                = sum_list (map count_nodes xs)" for xs
  proof (induction xs)
    case Nil
    show ?case by simp
  next
    case (Cons a xs)
    have "count_nodes a = Suc (sum_list (map count_nodes (kids a)))"
      by (cases a) (simp add: kids_def split: option.split)
    with Cons show ?case by simp
  qed
  have "0 < length (n # ns)" by simp
  with step [of "n # ns"]
  have "sum_list (map count_nodes (concat (map kids (n # ns))))
          < sum_list (map count_nodes (n # ns))"
    by linarith
  then show "(concat (map kids (n # ns)), n # ns) \<in> measure (\<lambda>ns. sum_list (map count_nodes ns))"
    by simp
qed

text \<open>All nodes of the subtree below a node, the node first.\<close>

fun nodes_of :: "node \<Rightarrow> node list" where
  "nodes_of (Node i nm t bx fs cs st ch) =
     Node i nm t bx fs cs st ch
       # (case ch of None \<Rightarrow> [] | Some ns \<Rightarrow> concat (map nodes_of ns))"

section \<open>Notions of the specification\<close>

text \<open>The entity form of one character.\<close>

definition escape_char :: "char \<Rightarrow> string" where
  "escape_char c =
     (if c = CHR ''&'' then ''&amp;''
      else if c = CHR ''<'' then ''&lt;''
      else if c = CHR ''>'' then ''&gt;''
      else [c])"

definition markup_unsafe :: "char \<Rightarrow> bool" where
  "markup_unsafe c = (c = CHR ''&'' \<or> c = CHR ''<'' \<or> c = CHR ''>'')"


text \<open>A list of style declarations has some declaration of a background.\<close>

definition has_background :: "string list \<Rightarrow> bool" where
  "has_background parts = list_ex (\<lambda>p. take 11 p = ''background:'') parts"

text \<open>A list of style declarations has some declaration of a font size.\<close>

definition has_fontSize :: "string list \<Rightarrow> bool" where
  "has_fontSize parts = list_ex (\<lambda>p. take 9 p = ''fontSize:'') parts"

text \<open>The first child of the first page of a document.\<close>

definition first_page_first_child :: "node \<Rightarrow> node option" where
  "first_page_first_child doc =
     (case kids doc of
        [] \<Rightarrow> None
      | page # pages \<Rightarrow> (case kids page of [] \<Rightarrow> None | child # rest \<Rightarrow> Some child))"

text \<open>The first child of the node that is the first child of the first page.\<close>

definition first_child_of_first_page_first_child :: "node \<Rightarrow> node option" where
  "first_child_of_first_page_first_child doc =
     (case first_page_first_child doc of
        None \<Rightarrow> None
      | Some child \<Rightarrow> (case kids child of [] \<Rightarrow> None | grandchild # rest \<Rightarrow> Some grandchild))"

section \<open>Example documents\<close>

text \<open>The tree \<open>A(children: [B, C(children: [D])])\<close>.\<close>

definition ex_B :: node where
  "ex_B = Node ''B'' ''B'' ''RECTANGLE'' None None None None None"

definition ex_D :: node where
  "ex_D = Node ''D'' ''D'' ''TEXT'' None None None None None"

definition ex_C :: node where
  "ex_C = Node ''C'' ''C'' ''GROUP'' None None None None (Some [ex_D])"

definition ex_A :: node where
  "ex_A = Node ''A'' ''A'' ''FRAME'' None None None None (Some [ex_B, ex_C])"

text \<open>
  A document with one page that holds one frame of 400 by 300 with one text child, the
  first end-to-end scenario of the specification.
\<close>

definition ex_text :: node where
  "ex_text = Node ''1:3'' ''Greeting'' ''TEXT''
     (Some \<lparr>box_x = 10, box_y = 20, box_width = 50, box_height = 20\<rparr>)
     None (Some ''Hi'') (Some \<lparr>fontSize = Some 16\<rparr>) None"

definition ex_frame :: node where
  "ex_frame = Node ''1:2'' ''Frame 1'' ''FRAME''
     (Some \<lparr>box_x = 0, box_y = 0, box_width = 400, box_height = 300\<rparr>)
     None None None (Some [ex_text])"

definition ex_page :: node where
  "ex_page = Node ''0:1'' ''Page 1'' ''CANVAS'' None None None None (Some [ex_frame])"

definition ex_document :: node where
  "ex_document = Node ''0:0'' ''Document'' ''DOCUMENT'' None None None None (Some [ex_page])"

text \<open>A document whose only page holds one text node without children and no frame.\<close>

definition ex_lonely_text :: node where
  "ex_lonely_text = Node ''1:5'' ''Title'' ''TEXT'' None None (Some ''Title'') None None"

definition ex_frameless_document :: node where
  "ex_frameless_document = Node ''0:0'' ''Document'' ''DOCUMENT'' None None None None
     (Some [Node ''0:1'' ''Page 1'' ''CANVAS'' None None None None (Some [ex_lonely_text])])"

text \<open>A document without pages, the second end-to-end scenario of the specification.\<close>

definition ex_empty_document :: node where
  "ex_empty_document = Node ''0:0'' ''Document'' ''DOCUMENT'' None None None None (Some [])"

text \<open>Fills: an opaque red, a linear gradient, and a solid fill that carries no colour.\<close>

definition ex_red :: fill where
  "ex_red = \<lparr>fill_type = ''SOLID'',
             fill_color = Some \<lparr>color_r = Some 1, color_g = Some 0, color_b = Some 0\<rparr>,
             fill_opacity = Undefined\<rparr>"

definition ex_gradient :: fill where
  "ex_gradient = \<lparr>fill_type = ''GRADIENT_LINEAR'', fill_color = None, fill_opacity = Undefined\<rparr>"

definition ex_colorless :: fill where
  "ex_colorless = \<lparr>fill_type = ''SOLID'', fill_color = None, fill_opacity = Num 1\<rparr>"

definition ex_grey :: fill where
  "ex_grey = \<lparr>fill_type = ''SOLID'',
              fill_color = Some \<lparr>color_r = Some (1 / 2), color_g = Some (1 / 2), color_b = Some (1 / 2)\<rparr>,
              fill_opacity = Num 0\<rparr>"

text \<open>
  A solid fill whose channels are the double nearest to \<open>0.3\<close>, which is
  \<open>5404319552844595 / 2\<^sup>5\<^sup>4\<close>: its product with 255 is rounded to \<open>76.5\<close>.
\<close>

definition ex_dim :: fill where
  "ex_dim = \<lparr>fill_type = ''SOLID'',
             fill_color = Some \<lparr>color_r = Some (5404319552844595 / 2 ^ 54),
                                 color_g = Some (5404319552844595 / 2 ^ 54),
                                 color_b = Some (5404319552844595 / 2 ^ 54)\<rparr>,
             fill_opacity = Str ''0.5''\<rparr>"

text \<open>Rectangles of 40 by 30 at (120, 80) that differ in their fills only.\<close>

definition ex_rect :: "fill list \<Rightarrow> node" where
  "ex_rect fs = Node ''2:1'' ''Rectangle'' ''RECTANGLE''
     (Some \<lparr>box_x = 120, box_y = 80, box_width = 40, box_height = 30\<rparr>)
     (Some fs) None None None"


text \<open>A text node whose style has the font size zero.\<close>

definition ex_zero_font :: node where
  "ex_zero_font = Node ''1:4'' ''Label'' ''TEXT''
     (Some \<lparr>box_x = 10, box_y = 20, box_width = 50, box_height = 20\<rparr>)
     None (Some ''a<b'') (Some \<lparr>fontSize = Some 0\<rparr>) None"

definition ex_origin :: box where
  "ex_origin = \<lparr>box_x = 100, box_y = 50, box_width = 400, box_height = 300\<rparr>"

section \<open>Text escaping: properties\<close>

lemma replace_all_append:
  "replace_all c r (xs @ ys) = replace_all c r xs @ replace_all c r ys"
  by (simp add: replace_all_def)

lemma replace_all_Cons:
  "replace_all c r (x # xs) = (if x = c then r else [x]) @ replace_all c r xs"
  by (simp add: replace_all_def)

lemma replace_all_Nil: "replace_all c r [] = []"
  by (simp add: replace_all_def)

lemma escapeJsxText_Nil: "escapeJsxText [] = []"
  by (simp add: escapeJsxText_def replace_all_Nil)

lemma escapeJsxText_Cons: "escapeJsxText (c # s) = escape_char c @ escapeJsxText s"
  by (simp add: escapeJsxText_def escape_char_def replace_all_Cons replace_all_append replace_all_Nil)

lemma escapeJsxText_chars: "escapeJsxText s = concat (map escape_char s)"
  by (induction s) (simp_all add: escapeJsxText_Nil escapeJsxText_Cons)

lemma escapeJsxText_append: "escapeJsxText (s @ t) = escapeJsxText s @ escapeJsxText t"
  by (simp add: escapeJsxText_chars)

lemma escapeJsxText_safe: "\<forall>c \<in> set s. \<not> markup_unsafe c \<Longrightarrow> escapeJsxText s = s"
  by (induction s) (simp_all add: escapeJsxText_Nil escapeJsxText_Cons escape_char_def markup_unsafe_def)

lemma length_escape_char: "length (escape_char c) = (if c = CHR ''&'' then 5 else if c = CHR ''<'' \<or> c = CHR ''>'' then 4 else 1)"
  by (simp add: escape_char_def)

lemma length_escapeJsxText_ge: "length s \<le> length (escapeJsxText s)"
  by (induction s) (simp_all add: escapeJsxText_Nil escapeJsxText_Cons length_escape_char)

lemma length_escapeJsxText_gt:
  "\<exists>c \<in> set s. markup_unsafe c \<Longrightarrow> length s < length (escapeJsxText s)"
proof (induction s)
  case Nil
  then show ?case by simp
next
  case (Cons a s)
  have ge: "length s \<le> length (escapeJsxText s)" by (rule length_escapeJsxText_ge)
  show ?case
  proof (cases "markup_unsafe a")
    case True
    then have "1 < length (escape_char a)"
      by (auto simp: markup_unsafe_def length_escape_char)
    with ge show ?thesis by (simp add: escapeJsxText_Cons)
  next
    case False
    with Cons.prems have "\<exists>c \<in> set s. markup_unsafe c" by simp
    then have "length s < length (escapeJsxText s)" by (rule Cons.IH)
    moreover have "length (escape_char a) = 1" using False by (simp add: markup_unsafe_def length_escape_char)
    ultimately show ?thesis by (simp add: escapeJsxText_Cons)
  qed
qed

lemma unsafe_escapeJsxText:
  "\<exists>c \<in> set s. markup_unsafe c \<Longrightarrow> \<exists>c \<in> set (escapeJsxText s). markup_unsafe c"
proof (induction s)
  case Nil
  then show ?case by simp
next
  case (Cons a s)
  show ?case
  proof (cases "markup_unsafe a")
    case True
    then have "CHR ''&'' \<in> set (escape_char a)"
      by (auto simp: markup_unsafe_def escape_char_def)
    then show ?thesis by (auto simp: escapeJsxText_Cons markup_unsafe_def)
  next
    case False
    with Cons.prems have "\<exists>c \<in> set s. markup_unsafe c" by simp
    then have "\<exists>c \<in> set (escapeJsxText s). markup_unsafe c" by (rule Cons.IH)
    then show ?thesis by (auto simp: escapeJsxText_Cons)
  qed
qed

text \<open>
  Claim C3, as amended. Escaping \<open>A & B < C\<close> yields \<open>A &amp; B &lt; C\<close>. Escaping is a
  single pass that replaces each character of its input by its entity form, so the
  ampersands of the entities it writes are not escaped again within one call. It is not
  idempotent: escaping twice gives the same as escaping once exactly for the strings
  that hold none of \<open>&\<close>, \<open><\<close>, \<open>>\<close>.
\<close>

theorem escapeJsxText_single_pass:
  "escapeJsxText ''A & B < C'' = ''A &amp; B &lt; C''
   \<and> escapeJsxText s = concat (map escape_char s)
   \<and> (escapeJsxText (escapeJsxText s) = escapeJsxText s) = (\<not> list_ex markup_unsafe s)"
proof (intro conjI)
  show "escapeJsxText ''A & B < C'' = ''A &amp; B &lt; C''"
    by (simp add: escapeJsxText_Cons escapeJsxText_Nil escape_char_def)
  show "escapeJsxText s = concat (map escape_char s)"
    by (rule escapeJsxText_chars)
  show "(escapeJsxText (escapeJsxText s) = escapeJsxText s) = (\<not> list_ex markup_unsafe s)"
  proof
    assume idem: "escapeJsxText (escapeJsxText s) = escapeJsxText s"
    show "\<not> list_ex markup_unsafe s"
    proof
      assume "list_ex markup_unsafe s"
      then have "\<exists>c \<in> set s. markup_unsafe c" by (simp add: list_ex_iff)
      then have "\<exists>c \<in> set (escapeJsxText s). markup_unsafe c" by (rule unsafe_escapeJsxText)
      then have "length (escapeJsxText s) < length (escapeJsxText (escapeJsxText s))"
        by (rule length_escapeJsxText_gt)
      with idem show False by simp
    qed
  next
    assume "\<not> list_ex markup_unsafe s"
    then have "\<forall>c \<in> set s. \<not> markup_unsafe c" by (simp add: list_ex_iff)
    then have "escapeJsxText s = s" by (rule escapeJsxText_safe)
    then show "escapeJsxText (escapeJsxText s) = escapeJsxText s" by simp
  qed
qed

text \<open>The theorem at the string \<open>Hi\<close>, which holds no such character.\<close>

theorem escapeJsxText_single_pass_witness:
  "\<not> list_ex markup_unsafe ''Hi''
   \<and> escapeJsxText (escapeJsxText ''Hi'') = escapeJsxText ''Hi''"
proof -
  have safe: "\<not> list_ex markup_unsafe ''Hi''"
    by (simp add: markup_unsafe_def)
  with escapeJsxText_single_pass [of "''Hi''"] show ?thesis
    by blast
qed

text \<open>
  Claim C3 as stated fails: escaping the escaped form of \<open>A & B < C\<close> escapes the
  ampersands of \<open>&amp;\<close> and \<open>&lt;\<close> again.
\<close>

theorem escapeJsxText_idempotent_counterexample:
  "escapeJsxText ''A & B < C'' = ''A &amp; B &lt; C''
   \<and> escapeJsxText (escapeJsxText ''A & B < C'') = ''A &amp;amp; B &amp;lt; C''
   \<and> escapeJsxText (escapeJsxText ''A & B < C'') \<noteq> escapeJsxText ''A & B < C''"
  by (simp add: escapeJsxText_def replace_all_def)

section \<open>The queue loops visit in breadth-first order\<close>

lemma push_children: "(case children n of None \<Rightarrow> stack | Some cs \<Rightarrow> stack @ cs) = stack @ kids n"
  by (simp add: kids_def split: option.split)

lemma push_nonempty_children:
  "(case children n of None \<Rightarrow> stack | Some cs \<Rightarrow> if length cs \<noteq> 0 then stack @ cs else stack)
     = stack @ kids n"
  by (simp add: kids_def split: option.split)

lemma find_append_case:
  "find P (xs @ ys) = (case find P xs of Some x \<Rightarrow> Some x | None \<Rightarrow> find P ys)"
  by (induction xs) simp_all

lemma findFrameNode_byId_level:
  "findFrameNode_byId t (xs @ ys) =
     (case find (\<lambda>n. node_id n = t) xs of
        Some n \<Rightarrow> Some n
      | None \<Rightarrow> findFrameNode_byId t (ys @ concat (map kids xs)))"
proof (induction xs arbitrary: ys)
  case Nil
  show ?case by simp
next
  case (Cons x xs)
  show ?case
  proof (cases "node_id x = t")
    case True
    then show ?thesis by simp
  next
    case False
    then have "findFrameNode_byId t ((x # xs) @ ys) = findFrameNode_byId t (xs @ (ys @ kids x))"
      by (simp add: push_children)
    also have "\<dots> = (case find (\<lambda>n. node_id n = t) xs of
                        Some n \<Rightarrow> Some n
                      | None \<Rightarrow> findFrameNode_byId t ((ys @ kids x) @ concat (map kids xs)))"
      by (rule Cons.IH)
    finally show ?thesis using False by (simp split: option.split)
  qed
qed

lemma findFrameNode_byId_bfs:
  "findFrameNode_byId t ns = find (\<lambda>n. node_id n = t) (bfs_order ns)"
proof (induction ns rule: bfs_order.induct)
  case 1
  show ?case by simp
next
  case (2 n ns)
  have "findFrameNode_byId t (n # ns) = findFrameNode_byId t ((n # ns) @ [])"
    by simp
  also have "\<dots> = (case find (\<lambda>m. node_id m = t) (n # ns) of
                      Some m \<Rightarrow> Some m
                    | None \<Rightarrow> findFrameNode_byId t ([] @ concat (map kids (n # ns))))"
    by (rule findFrameNode_byId_level)
  also have "\<dots> = find (\<lambda>m. node_id m = t) (bfs_order (n # ns))"
    using "2.IH" by (simp add: find_append_case split: option.split)
  finally show ?case .
qed

lemma findFrameNode_deep_level:
  "findFrameNode_deep (xs @ ys) =
     (case find (\<lambda>n. node_type n = ''FRAME'') xs of
        Some n \<Rightarrow> Some n
      | None \<Rightarrow> findFrameNode_deep (ys @ concat (map kids xs)))"
proof (induction xs arbitrary: ys)
  case Nil
  show ?case by simp
next
  case (Cons x xs)
  show ?case
  proof (cases "node_type x = ''FRAME''")
    case True
    then show ?thesis by simp
  next
    case False
    then have "findFrameNode_deep ((x # xs) @ ys) = findFrameNode_deep (xs @ (ys @ kids x))"
      by (simp add: push_children)
    also have "\<dots> = (case find (\<lambda>n. node_type n = ''FRAME'') xs of
                        Some n \<Rightarrow> Some n
                      | None \<Rightarrow> findFrameNode_deep ((ys @ kids x) @ concat (map kids xs)))"
      by (rule Cons.IH)
    finally show ?thesis using False by (simp split: option.split)
  qed
qed

lemma findFrameNode_deep_bfs:
  "findFrameNode_deep ns = find (\<lambda>n. node_type n = ''FRAME'') (bfs_order ns)"
proof (induction ns rule: bfs_order.induct)
  case 1
  show ?case by simp
next
  case (2 n ns)
  have "findFrameNode_deep (n # ns) = findFrameNode_deep ((n # ns) @ [])"
    by simp
  also have "\<dots> = (case find (\<lambda>m. node_type m = ''FRAME'') (n # ns) of
                      Some m \<Rightarrow> Some m
                    | None \<Rightarrow> findFrameNode_deep ([] @ concat (map kids (n # ns))))"
    by (rule findFrameNode_deep_level)
  also have "\<dots> = find (\<lambda>m. node_type m = ''FRAME'') (bfs_order (n # ns))"
    using "2.IH" by (simp add: find_append_case split: option.split)
  finally show ?case .
qed

lemma traverseAndGenerate_loop_level:
  "traverseAndGenerate_loop str fb (xs @ ys) acc =
     traverseAndGenerate_loop str fb (ys @ concat (map kids xs))
       (acc @ map (\<lambda>n. nodeToJsx str n fb) xs)"
proof (induction xs arbitrary: ys acc)
  case Nil
  show ?case by simp
next
  case (Cons x xs)
  have "traverseAndGenerate_loop str fb ((x # xs) @ ys) acc =
          traverseAndGenerate_loop str fb (xs @ (ys @ kids x)) (acc @ [nodeToJsx str x fb])"
    by (simp add: push_nonempty_children)
  also have "\<dots> = traverseAndGenerate_loop str fb ((ys @ kids x) @ concat (map kids xs))
                      ((acc @ [nodeToJsx str x fb]) @ map (\<lambda>n. nodeToJsx str n fb) xs)"
    by (rule Cons.IH)
  finally show ?case by simp
qed

lemma traverseAndGenerate_loop_bfs:
  "traverseAndGenerate_loop str fb ns acc = acc @ map (\<lambda>n. nodeToJsx str n fb) (bfs_order ns)"
proof (induction ns arbitrary: acc rule: bfs_order.induct)
  case 1
  show ?case by simp
next
  case (2 n ns)
  have "traverseAndGenerate_loop str fb (n # ns) acc
          = traverseAndGenerate_loop str fb ((n # ns) @ []) acc"
    by simp
  also have "\<dots> = traverseAndGenerate_loop str fb ([] @ concat (map kids (n # ns)))
                      (acc @ map (\<lambda>m. nodeToJsx str m fb) (n # ns))"
    by (rule traverseAndGenerate_loop_level)
  also have "\<dots> = (acc @ map (\<lambda>m. nodeToJsx str m fb) (n # ns))
                      @ map (\<lambda>m. nodeToJsx str m fb) (bfs_order (concat (map kids (n # ns))))"
    using "2.IH" by simp
  finally show ?case by simp
qed

lemma nodes_of_kids: "nodes_of n = n # concat (map nodes_of (kids n))"
  by (cases n) (simp add: kids_def split: option.split)

lemma count_nodes_kids: "count_nodes n = Suc (sum_list (map count_nodes (kids n)))"
  by (cases n) (simp add: kids_def split: option.split)

lemma mset_nodes_of_level:
  "mset (concat (map nodes_of ns)) = mset ns + mset (concat (map nodes_of (concat (map kids ns))))"
proof (induction ns)
  case Nil
  show ?case by simp
next
  case (Cons a ns)
  have "mset (nodes_of a) = {#a#} + mset (concat (map nodes_of (kids a)))"
    by (subst nodes_of_kids) simp
  with Cons show ?case by simp
qed

lemma mset_bfs_order: "mset (bfs_order ns) = mset (concat (map nodes_of ns))"
proof (induction ns rule: bfs_order.induct)
  case 1
  show ?case by simp
next
  case (2 n ns)
  have "mset (bfs_order (n # ns)) = mset (n # ns) + mset (bfs_order (concat (map kids (n # ns))))"
    by simp
  also have "\<dots> = mset (n # ns) + mset (concat (map nodes_of (concat (map kids (n # ns)))))"
    using "2.IH" by simp
  also have "\<dots> = mset (concat (map nodes_of (n # ns)))"
    by (rule mset_nodes_of_level [symmetric])
  finally show ?case .
qed

lemma length_nodes_of: "length (nodes_of n) = count_nodes n"
  by (induction n rule: count_nodes.induct) (simp add: length_concat comp_def split: option.split cong: map_cong)

lemma length_bfs_order: "length (bfs_order ns) = sum_list (map count_nodes ns)"
proof -
  have "length (bfs_order ns) = size (mset (bfs_order ns))" by simp
  also have "\<dots> = length (concat (map nodes_of ns))" by (simp add: mset_bfs_order)
  also have "\<dots> = sum_list (map count_nodes ns)"
    by (simp add: length_concat comp_def length_nodes_of)
  finally show ?thesis .
qed

lemma set_bfs_order: "set (bfs_order ns) = set (concat (map nodes_of ns))"
proof -
  have "set_mset (mset (bfs_order ns)) = set_mset (mset (concat (map nodes_of ns)))"
    by (simp only: mset_bfs_order)
  then show ?thesis by (simp only: set_mset_mset)
qed

lemma find_Some_member: "find P xs = Some m \<Longrightarrow> m \<in> set xs \<and> P m"
  by (induction xs) (auto split: if_splits)

lemma kids_ex_A: "kids ex_A = [ex_B, ex_C]"
  by (simp add: kids_def ex_A_def)

lemma bfs_order_ex_A: "bfs_order (kids ex_A) = [ex_B, ex_C, ex_D]"
  by (simp add: kids_def ex_A_def ex_B_def ex_C_def ex_D_def)

lemma nodes_of_ex_A: "nodes_of ex_A = [ex_A, ex_B, ex_C, ex_D]"
  by (simp add: ex_A_def ex_B_def ex_C_def ex_D_def)

text \<open>
  Claim C5. For every sequence of top-level nodes and every reference origin, the
  fragments that the flattener emits are the fragments of the nodes in breadth-first
  order, each node's children in their listed order; the text it returns joins them
  with newlines. The nodes in that order are the nodes of the subtrees, each once, with
  no filtering, so the number of fragments is the number of nodes. For the tree
  \<open>A(children: [B, C(children: [D])])\<close> the fragments are those of \<open>B\<close>, \<open>C\<close>, \<open>D\<close>.
\<close>

theorem traverseAndGenerate_breadth_first:
  "traverseAndGenerate_parts str nodes frameBox
     = map (\<lambda>n. nodeToJsx str n frameBox) (bfs_order nodes)
   \<and> traverseAndGenerate str nodes frameBox
     = join ''\<newline>'' (map (\<lambda>n. nodeToJsx str n frameBox) (bfs_order nodes))
   \<and> mset (bfs_order nodes) = mset (concat (map nodes_of nodes))
   \<and> length (traverseAndGenerate_parts str nodes frameBox) = sum_list (map count_nodes nodes)
   \<and> traverseAndGenerate_parts str (kids ex_A) frameBox
     = [nodeToJsx str ex_B frameBox, nodeToJsx str ex_C frameBox, nodeToJsx str ex_D frameBox]"
proof -
  have parts: "traverseAndGenerate_parts str ns frameBox
                 = map (\<lambda>n. nodeToJsx str n frameBox) (bfs_order ns)" for ns
    by (simp add: traverseAndGenerate_parts_def traverseAndGenerate_loop_bfs)
  have "traverseAndGenerate_parts str (kids ex_A) frameBox
          = [nodeToJsx str ex_B frameBox, nodeToJsx str ex_C frameBox, nodeToJsx str ex_D frameBox]"
    by (simp only: parts bfs_order_ex_A list.map)
  moreover have "length (traverseAndGenerate_parts str nodes frameBox)
                   = sum_list (map count_nodes nodes)"
    by (simp add: parts length_bfs_order)
  moreover have "traverseAndGenerate str nodes frameBox
                   = join ''\<newline>'' (map (\<lambda>n. nodeToJsx str n frameBox) (bfs_order nodes))"
    by (simp only: traverseAndGenerate_def parts)
  ultimately show ?thesis
    using parts [of nodes] mset_bfs_order [of nodes] by blast
qed

text \<open>
  Claim C7. When a target id is supplied, that is, when \<^verbatim>\<open>nodeId\<close> is a string that is
  not empty, the locator returns the first node with that id in the breadth-first order
  of the whole tree from the document root. It reports not-found when no node of the
  tree has the id, and when exactly one node \<open>n\<close> of the tree has the id it returns \<open>n\<close>.
\<close>

theorem findFrameNode_by_id:
  "t \<noteq> [] \<Longrightarrow>
   findFrameNode doc (Some t) = find (\<lambda>m. node_id m = t) (bfs_order [doc])
   \<and> set (bfs_order [doc]) = set (nodes_of doc)
   \<and> (filter (\<lambda>m. node_id m = t) (nodes_of doc) = [] \<longrightarrow> findFrameNode doc (Some t) = None)
   \<and> (filter (\<lambda>m. node_id m = t) (nodes_of doc) = [n] \<longrightarrow> findFrameNode doc (Some t) = Some n)"
proof -
  assume ne: "t \<noteq> []"
  then obtain c cs where t: "t = c # cs" by (cases t) auto
  have search: "findFrameNode doc (Some t) = find (\<lambda>m. node_id m = t) (bfs_order [doc])"
    unfolding t by (simp add: findFrameNode_def findFrameNode_byId_bfs)
  have nodes: "set (bfs_order [doc]) = set (nodes_of doc)"
    by (simp only: set_bfs_order) simp
  have absent: "findFrameNode doc (Some t) = None"
    if "filter (\<lambda>m. node_id m = t) (nodes_of doc) = []"
  proof -
    from that have "\<forall>m \<in> set (nodes_of doc). node_id m \<noteq> t"
      by (simp add: filter_empty_conv)
    with nodes have "\<not> (\<exists>m. m \<in> set (bfs_order [doc]) \<and> node_id m = t)" by blast
    then have "find (\<lambda>m. node_id m = t) (bfs_order [doc]) = None"
      unfolding find_None_iff .
    with search show ?thesis by simp
  qed
  have unique: "findFrameNode doc (Some t) = Some n"
    if one: "filter (\<lambda>m. node_id m = t) (nodes_of doc) = [n]"
  proof -
    have "set (filter (\<lambda>m. node_id m = t) (nodes_of doc)) = {n}"
      by (simp add: one)
    then have only: "{m \<in> set (nodes_of doc). node_id m = t} = {n}"
      by simp
    then have "n \<in> set (nodes_of doc)" and "node_id n = t" by blast+
    with nodes have "\<exists>m. m \<in> set (bfs_order [doc]) \<and> node_id m = t" by blast
    then have "find (\<lambda>m. node_id m = t) (bfs_order [doc]) \<noteq> None"
      unfolding find_None_iff by blast
    then obtain m where m: "find (\<lambda>m. node_id m = t) (bfs_order [doc]) = Some m" by blast
    then have "m \<in> set (bfs_order [doc]) \<and> node_id m = t"
      by (rule find_Some_member)
    then have "node_id m = t" and "m \<in> set (bfs_order [doc])"
      by blast+
    with nodes only have "m = n" by blast
    with m search show ?thesis by simp
  qed
  from search nodes absent unique show ?thesis by blast
qed

text \<open>
  The theorem in the tree \<open>A(children: [B, C(children: [D])])\<close>: the id \<open>D\<close> occurs once,
  two levels below the root, and the id \<open>Z\<close> does not occur.
\<close>

theorem findFrameNode_by_id_witness:
  "''D'' \<noteq> [] \<and> filter (\<lambda>m. node_id m = ''D'') (nodes_of ex_A) = [ex_D]
   \<and> findFrameNode ex_A (Some ''D'') = Some ex_D
   \<and> ''Z'' \<noteq> [] \<and> filter (\<lambda>m. node_id m = ''Z'') (nodes_of ex_A) = []
   \<and> findFrameNode ex_A (Some ''Z'') = None"
proof -
  have d: "filter (\<lambda>m. node_id m = ''D'') (nodes_of ex_A) = [ex_D]"
    by (simp add: nodes_of_ex_A) (simp add: ex_A_def ex_B_def ex_C_def ex_D_def)
  have z: "filter (\<lambda>m. node_id m = ''Z'') (nodes_of ex_A) = []"
    by (simp add: nodes_of_ex_A) (simp add: ex_A_def ex_B_def ex_C_def ex_D_def)
  have nd: "''D'' \<noteq> []" and nz: "''Z'' \<noteq> []"
    by simp_all
  have "findFrameNode ex_A (Some ''D'') = Some ex_D"
    using findFrameNode_by_id [OF nd, of ex_A ex_D] d by blast
  moreover have "findFrameNode ex_A (Some ''Z'') = None"
    using findFrameNode_by_id [OF nz, of ex_A ex_D] z by blast
  ultimately show ?thesis using d z nd nz by blast
qed

lemma findFrameNode_page_find:
  "findFrameNode_page cs =
     find (\<lambda>c. node_type c \<in> {''FRAME'', ''COMPONENT'', ''INSTANCE'', ''GROUP'', ''RECTANGLE''}) cs"
  by (induction cs) simp_all

lemma findFrameNode_pages_find:
  "findFrameNode_pages pages =
     find (\<lambda>c. node_type c \<in> {''FRAME'', ''COMPONENT'', ''INSTANCE'', ''GROUP'', ''RECTANGLE''})
       (concat (map kids pages))"
proof (induction pages)
  case Nil
  show ?case by simp
next
  case (Cons page pages)
  show ?case
  proof (cases "children page")
    case None
    with Cons show ?thesis by (simp add: kids_def)
  next
    case (Some cs)
    with Cons show ?thesis
      by (simp add: kids_def findFrameNode_page_find find_append_case split: option.split
          del: find.simps)
  qed
qed

text \<open>
  Claim C6. When no target id is supplied (\<^verbatim>\<open>nodeId\<close> is absent or, for the test
  \<^verbatim>\<open>if (nodeId)\<close>, the empty string), the locator returns the first child of a page whose
  type is one of \<open>FRAME\<close>, \<open>COMPONENT\<close>, \<open>INSTANCE\<close>, \<open>GROUP\<close>, \<open>RECTANGLE\<close>, the pages in
  document order and the children of each in listed order. If no page has such a child
  it returns the first node of type \<open>FRAME\<close> in the breadth-first order of the nodes
  below the document root, which is the breadth-first order of the whole tree for a root
  that is no \<open>FRAME\<close> itself; if there is none either it reports not-found.
\<close>

theorem findFrameNode_without_id:
  "findFrameNode doc None =
     (case find (\<lambda>c. node_type c \<in> {''FRAME'', ''COMPONENT'', ''INSTANCE'', ''GROUP'', ''RECTANGLE''})
             (concat (map kids (kids doc))) of
        Some child \<Rightarrow> Some child
      | None \<Rightarrow> find (\<lambda>m. node_type m = ''FRAME'') (bfs_order (kids doc)))
   \<and> findFrameNode doc (Some []) = findFrameNode doc None
   \<and> (node_type doc \<noteq> ''FRAME'' \<longrightarrow>
        find (\<lambda>m. node_type m = ''FRAME'') (bfs_order (kids doc))
          = find (\<lambda>m. node_type m = ''FRAME'') (bfs_order [doc]))"
proof (intro conjI impI)
  show "findFrameNode doc None =
     (case find (\<lambda>c. node_type c \<in> {''FRAME'', ''COMPONENT'', ''INSTANCE'', ''GROUP'', ''RECTANGLE''})
             (concat (map kids (kids doc))) of
        Some child \<Rightarrow> Some child
      | None \<Rightarrow> find (\<lambda>m. node_type m = ''FRAME'') (bfs_order (kids doc)))"
  proof (cases "children doc")
    case None
    then show ?thesis by (simp add: findFrameNode_def kids_def)
  next
    case (Some pages)
    then show ?thesis
      by (simp add: findFrameNode_def kids_def findFrameNode_pages_find findFrameNode_deep_bfs
          split: option.split del: find.simps)
  qed
  show "findFrameNode doc (Some []) = findFrameNode doc None"
    by (simp add: findFrameNode_def)
  show "find (\<lambda>m. node_type m = ''FRAME'') (bfs_order (kids doc))
          = find (\<lambda>m. node_type m = ''FRAME'') (bfs_order [doc])"
    if "node_type doc \<noteq> ''FRAME''"
    using that by simp
qed

text \<open>
  The theorem in three documents: one whose page holds a frame, one whose only frame
  lies two levels below its page, and one without any frame.
\<close>

theorem findFrameNode_without_id_witness:
  "node_type ex_document \<noteq> ''FRAME'' \<and> findFrameNode ex_document None = Some ex_frame
   \<and> findFrameNode (Node ''0:0'' ''Document'' ''DOCUMENT'' None None None None
        (Some [Node ''0:1'' ''Page 1'' ''CANVAS'' None None None None
          (Some [Node ''1:1'' ''Section'' ''SECTION'' None None None None (Some [ex_A])])])) None
      = Some ex_A
   \<and> findFrameNode ex_frameless_document None = None"
proof -
  have "findFrameNode ex_document None = Some ex_frame"
    using findFrameNode_without_id [of ex_document]
    by (simp add: ex_document_def ex_page_def ex_frame_def ex_text_def kids_def)
  moreover have "findFrameNode (Node ''0:0'' ''Document'' ''DOCUMENT'' None None None None
        (Some [Node ''0:1'' ''Page 1'' ''CANVAS'' None None None None
          (Some [Node ''1:1'' ''Section'' ''SECTION'' None None None None (Some [ex_A])])])) None
      = Some ex_A"
    by (simp add: findFrameNode_def ex_A_def ex_B_def ex_C_def ex_D_def)
  moreover have "findFrameNode ex_frameless_document None = None"
    by (simp add: findFrameNode_def ex_frameless_document_def ex_lonely_text_def)
  moreover have "node_type ex_document \<noteq> ''FRAME''"
    by (simp add: ex_document_def)
  ultimately show ?thesis by simp
qed

section \<open>Double arithmetic: properties\<close>

lemma pow2_pos: "0 < pow2 k"
  by (simp add: pow2_def)

lemma pow2_nat: "pow2 (int m) = 2 ^ m"
  by (simp add: pow2_def)

lemma pow2_Suc: "pow2 (k + 1) = 2 * pow2 k"
proof (cases "0 \<le> k")
  case True
  then show ?thesis by (simp add: pow2_def nat_add_distrib)
next
  case False
  then have "nat (- k) = Suc (nat (- (k + 1)))" by simp
  with False show ?thesis by (simp add: pow2_def)
qed

lemma pow2_mono: "j \<le> k \<Longrightarrow> pow2 j \<le> pow2 k"
proof (induction "nat (k - j)" arbitrary: k)
  case 0
  then show ?case by simp
next
  case (Suc d)
  then have "d = nat ((k - 1) - j)" and "j \<le> k - 1" by simp_all
  then have "pow2 j \<le> pow2 (k - 1)" by (rule Suc.hyps(1))
  also have "\<dots> \<le> 2 * pow2 (k - 1)" using pow2_pos [of "k - 1"] by simp
  also have "\<dots> = pow2 k" using pow2_Suc [of "k - 1"] by simp
  finally show ?case .
qed

text \<open>The exponent of a positive number is the one of the power of two at or below it.\<close>

lemma binade_bounds:
  assumes "0 < v"
  shows "pow2 (binade v) \<le> v \<and> v < pow2 (binade v + 1)"
proof (cases "1 \<le> v")
  case True
  then have pos: "0 < \<lfloor>v\<rfloor>" by linarith
  then have b1: "1 \<le> bitlen \<lfloor>v\<rfloor>"
    using bitlen_eq_zero_iff [of "\<lfloor>v\<rfloor>"] bitlen_nonneg [of "\<lfloor>v\<rfloor>"] by linarith
  from bitlen_bounds [OF pos]
  have lo: "2 ^ nat (bitlen \<lfloor>v\<rfloor> - 1) \<le> \<lfloor>v\<rfloor>" and hi: "\<lfloor>v\<rfloor> < 2 ^ nat (bitlen \<lfloor>v\<rfloor>)"
    by simp_all
  from lo have "real_of_int (2 ^ nat (bitlen \<lfloor>v\<rfloor> - 1)) \<le> real_of_int \<lfloor>v\<rfloor>"
    by (simp only: of_int_le_iff)
  then have "2 ^ nat (bitlen \<lfloor>v\<rfloor> - 1) \<le> v"
    by (simp add: le_floor_iff)
  moreover from hi have "\<lfloor>v\<rfloor> + 1 \<le> 2 ^ nat (bitlen \<lfloor>v\<rfloor>)" by simp
  then have "real_of_int (\<lfloor>v\<rfloor> + 1) \<le> real_of_int (2 ^ nat (bitlen \<lfloor>v\<rfloor>))"
    by (simp only: of_int_le_iff)
  then have "v < 2 ^ nat (bitlen \<lfloor>v\<rfloor>)"
    by simp linarith
  ultimately show ?thesis
    using True b1 by (simp add: binade_def pow2_def)
next
  case False
  with assms have v: "0 < v" "v < 1" by simp_all
  define n where "n = \<lceil>1 / v\<rceil> - 1"
  from v have "1 < 1 / v" by simp
  then have npos: "0 < n" unfolding n_def by linarith
  have up: "1 / v \<le> real_of_int (n + 1)" unfolding n_def by simp
  have low: "real_of_int n < 1 / v" unfolding n_def by linarith
  from bitlen_bounds [OF npos]
  have lo: "2 ^ nat (bitlen n - 1) \<le> n" and hi: "n < 2 ^ nat (bitlen n)"
    by simp_all
  have b1: "1 \<le> bitlen n"
    using npos bitlen_eq_zero_iff [of n] bitlen_nonneg [of n] by linarith
  from hi have "n + 1 \<le> 2 ^ nat (bitlen n)" by simp
  then have "real_of_int (n + 1) \<le> real_of_int (2 ^ nat (bitlen n))"
    by (simp only: of_int_le_iff)
  with up have "1 / v \<le> 2 ^ nat (bitlen n)" by simp
  with v have le: "1 / 2 ^ nat (bitlen n) \<le> v"
    by (simp add: field_simps)
  from lo have "(2 :: real) ^ nat (bitlen n - 1) \<le> real_of_int n"
    by simp
  with low have "2 ^ nat (bitlen n - 1) < 1 / v" by linarith
  with v have lt: "v < 1 / 2 ^ nat (bitlen n - 1)"
    by (simp add: field_simps)
  have "binade v = - bitlen n"
    using False by (simp add: binade_def n_def)
  moreover have "pow2 (- bitlen n) = 1 / 2 ^ nat (bitlen n)"
    using b1 by (simp add: pow2_def)
  moreover have "pow2 (- bitlen n + 1) = 1 / 2 ^ nat (bitlen n - 1)"
  proof (cases "bitlen n = 1")
    case True
    then show ?thesis by (simp add: pow2_def)
  next
    case False
    with b1 have "\<not> 0 \<le> - bitlen n + 1" and "nat (- (- bitlen n + 1)) = nat (bitlen n - 1)"
      by simp_all
    then show ?thesis by (simp add: pow2_def)
  qed
  ultimately show ?thesis using le lt by simp
qed

lemma ulp_pos: "0 < ulp v"
  by (simp add: ulp_def pow2_pos)

lemma round_half_even_near: "\<bar>of_int (round_half_even v) - v\<bar> \<le> 1 / 2"
  unfolding round_half_even_def by (simp; linarith)

lemma round_half_even_le: "v \<le> of_int m \<Longrightarrow> round_half_even v \<le> m"
proof -
  assume le: "v \<le> of_int m"
  then have fl_le: "\<lfloor>v\<rfloor> \<le> m" by (simp add: floor_le_iff)
  show ?thesis
  proof (cases "\<lfloor>v\<rfloor> = m")
    case True
    with le have "v - of_int \<lfloor>v\<rfloor> \<le> 0" by simp
    then have "v - of_int \<lfloor>v\<rfloor> < 1 / 2" by linarith
    with True show ?thesis by (simp add: round_half_even_def)
  next
    case False
    with fl_le have "\<lfloor>v\<rfloor> + 1 \<le> m" by simp
    then show ?thesis by (simp add: round_half_even_def)
  qed
qed

lemma round_half_even_nonneg: "0 \<le> v \<Longrightarrow> 0 \<le> round_half_even v"
  by (simp add: round_half_even_def)

text \<open>The rounded value lies within half a unit in the last place of the exact one.\<close>

lemma fl_near: "\<bar>fl v - v\<bar> \<le> ulp v / 2"
proof (cases "v = 0")
  case True
  then show ?thesis using ulp_pos [of v] by (simp add: fl_def)
next
  case False
  let ?u = "ulp v"
  let ?k = "round_half_even (\<bar>v\<bar> / ?u)"
  have u: "0 < ?u" by (rule ulp_pos)
  have "\<bar>of_int ?k - \<bar>v\<bar> / ?u\<bar> \<le> 1 / 2" by (rule round_half_even_near)
  then have "\<bar>of_int ?k - \<bar>v\<bar> / ?u\<bar> * ?u \<le> 1 / 2 * ?u"
    using u by (simp only: mult_le_cancel_right_pos)
  moreover have "\<bar>of_int ?k - \<bar>v\<bar> / ?u\<bar> * ?u = \<bar>of_int ?k * ?u - \<bar>v\<bar>\<bar>"
  proof -
    have "\<bar>of_int ?k - \<bar>v\<bar> / ?u\<bar> * ?u = \<bar>(of_int ?k - \<bar>v\<bar> / ?u) * ?u\<bar>"
      using u by (simp add: abs_mult)
    also have "(of_int ?k - \<bar>v\<bar> / ?u) * ?u = of_int ?k * ?u - \<bar>v\<bar>"
      using u by (simp add: field_simps)
    finally show ?thesis .
  qed
  ultimately have near: "\<bar>of_int ?k * ?u - \<bar>v\<bar>\<bar> \<le> ?u / 2" by simp
  have "fl v - v = sgn v * (of_int ?k * ?u - \<bar>v\<bar>)"
    using False by (simp add: fl_def algebra_simps sgn_real_def)
  then have "\<bar>fl v - v\<bar> = \<bar>of_int ?k * ?u - \<bar>v\<bar>\<bar>"
    using False by (simp add: abs_mult sgn_real_def)
  with near show ?thesis by simp
qed

lemma fl_nonneg: "0 \<le> v \<Longrightarrow> 0 \<le> fl v"
proof -
  assume "0 \<le> v"
  then have "0 \<le> round_half_even (\<bar>v\<bar> / ulp v)"
    using ulp_pos [of v] by (intro round_half_even_nonneg) simp
  with \<open>0 \<le> v\<close> show ?thesis
    using ulp_pos [of v] by (simp add: fl_def sgn_real_def)
qed

text \<open>Rounding does not pass an integer below \<open>2\<^sup>5\<^sup>3\<close>: every such integer is a double.\<close>

lemma fl_le_int:
  assumes "0 < v" and "v \<le> of_int m" and "m < 2 ^ 53"
  shows "fl v \<le> of_int m"
proof -
  from binade_bounds [OF assms(1)] have "pow2 (binade v) \<le> v" by simp
  also from assms have "v < pow2 53"
  proof -
    from assms(3) have "real_of_int m < real_of_int (2 ^ 53)"
      by (simp only: of_int_less_iff)
    with assms(2) show ?thesis by (simp add: pow2_def)
  qed
  finally have "pow2 (binade v) < pow2 53" .
  then have b: "binade v < 53"
    using pow2_mono [of 53 "binade v"] by (cases "binade v < 53") simp_all
  define k where "k = max (binade v) (- 1022) - 52"
  from b have k0: "k \<le> 0" unfolding k_def by simp
  have u: "ulp v = 1 / 2 ^ nat (- k)"
  proof (cases "k = 0")
    case True
    then show ?thesis using assms(1) by (simp add: ulp_def k_def [symmetric] pow2_def)
  next
    case False
    with k0 show ?thesis using assms(1) by (simp add: ulp_def k_def [symmetric] pow2_def)
  qed
  have "v / ulp v \<le> of_int m / ulp v"
    using assms(2) ulp_pos [of v] by (simp add: divide_right_mono)
  also have "of_int m / ulp v = of_int (m * 2 ^ nat (- k))"
    by (simp add: u)
  finally have "round_half_even (v / ulp v) \<le> m * 2 ^ nat (- k)"
    by (rule round_half_even_le)
  then have "real_of_int (round_half_even (v / ulp v)) \<le> real_of_int (m * 2 ^ nat (- k))"
    by (simp only: of_int_le_iff)
  then have "of_int (round_half_even (v / ulp v)) * ulp v \<le> of_int (m * 2 ^ nat (- k)) * ulp v"
    using ulp_pos [of v] by (simp only: mult_le_cancel_right_pos)
  also have "of_int (m * 2 ^ nat (- k)) * ulp v = of_int m"
    by (simp add: u)
  finally show ?thesis
    using assms(1) by (simp add: fl_def sgn_real_def)
qed

lemma round_num_mul_channel:
  assumes "0 \<le> v" and "v \<le> 1"
  shows "0 \<le> round (num_mul v 255) \<and> round (num_mul v 255) \<le> 255"
proof -
  from assms have nn: "0 \<le> v * 255" and le: "v * 255 \<le> of_int 255" by simp_all
  have "0 \<le> fl (v * 255)" using nn by (rule fl_nonneg)
  then have "round (0 :: real) \<le> round (fl (v * 255))" by (rule round_mono)
  moreover have "fl (v * 255) \<le> 255"
  proof (cases "v * 255 = 0")
    case True
    then show ?thesis by (simp add: fl_def)
  next
    case False
    with nn have "0 < v * 255" by simp
    from fl_le_int [OF this le] show ?thesis by simp
  qed
  then have "round (fl (v * 255)) \<le> round (255 :: real)" by (rule round_mono)
  ultimately show ?thesis by (simp add: num_mul_def)
qed

section \<open>Colours and fragments: properties\<close>

lemmas num_eval =
  num_sub_def num_mul_def fl_def ulp_def binade_def pow2_def round_half_even_def compute_bitlen


lemma colorObjToRgba_nonempty: "colorObjToRgba str c a \<noteq> []"
  by (simp add: colorObjToRgba_def Let_def)

lemma fillToCssColor_nonempty: "fillToCssColor str fill = Some css \<Longrightarrow> css \<noteq> []"
  by (auto simp: fillToCssColor_def Let_def colorObjToRgba_nonempty
      split: option.splits if_splits)


lemma nodeToJsx_bg_first_fill:
  "nodeToJsx_bg str n =
     (case fills n of
        None \<Rightarrow> None
      | Some [] \<Rightarrow> None
      | Some (f # fs) \<Rightarrow> fillToCssColor str (Some f))"
  by (auto simp: nodeToJsx_bg_def dest: fillToCssColor_nonempty
      split: option.split list.split)

lemma nodeToJsx_bg_nonempty: "nodeToJsx_bg str n = Some bg \<Longrightarrow> bg \<noteq> []"
  by (auto simp: nodeToJsx_bg_def split: option.splits list.splits if_splits)

lemma has_background_styleParts:
  "has_background (nodeToJsx_styleParts str n frameBox) = (nodeToJsx_bg str n \<noteq> None)"
proof (cases "nodeToJsx_bg str n")
  case None
  then show ?thesis
    by (simp add: has_background_def nodeToJsx_styleParts_def split: option.split)
next
  case (Some bg)
  then have "bg \<noteq> []" by (rule nodeToJsx_bg_nonempty)
  with Some show ?thesis
    by (simp add: has_background_def nodeToJsx_styleParts_def split: option.split)
qed


lemma has_fontSize_styleParts:
  "has_fontSize (nodeToJsx_styleParts str n frameBox)
     = (node_type n = ''TEXT'' \<and> nodeToJsx_fontSize n \<noteq> None)"
proof -
  have nz: "v \<noteq> 0" if "nodeToJsx_fontSize n = Some v" for v
    using that by (auto simp: nodeToJsx_fontSize_def split: option.splits if_splits)
  show ?thesis
  proof (cases "nodeToJsx_fontSize n")
    case None
    then show ?thesis
      by (simp add: has_fontSize_def nodeToJsx_styleParts_def split: option.split)
  next
    case (Some v)
    with nz have "v \<noteq> 0" by simp
    with Some show ?thesis
      by (simp add: has_fontSize_def nodeToJsx_styleParts_def split: option.split)
  qed
qed



text \<open>
  Claim C9. For every fill of kind \<open>SOLID\<close> whose colour has the channels \<open>r\<close>, \<open>g\<close>, \<open>b\<close>
  in \<open>[0, 1]\<close>, \<^verbatim>\<open>fillToCssColor\<close> yields the colour \<open>rgba(R, G, B, alpha)\<close> with
  \<open>R = Math.round(r * 255)\<close>, \<open>G = Math.round(g * 255)\<close>, \<open>B = Math.round(b * 255)\<close>, the
  products being products of doubles as the code computes them, all between 0 and 255,
  and with \<open>alpha\<close> the opacity of the fill when that is a number and 1 otherwise, also
  when it is absent. For a missing fill and for a fill of another kind it yields no
  colour.
\<close>

theorem fillToCssColor_solid:
  "fill_type f = ''SOLID'' \<Longrightarrow> fill_color f = Some c \<Longrightarrow>
   color_r c = Some r \<Longrightarrow> color_g c = Some g \<Longrightarrow> color_b c = Some b \<Longrightarrow>
   0 \<le> r \<and> r \<le> 1 \<Longrightarrow> 0 \<le> g \<and> g \<le> 1 \<Longrightarrow> 0 \<le> b \<and> b \<le> 1 \<Longrightarrow>
   fillToCssColor str (Some f) =
     Some (''rgba('' @ str (of_int (round (num_mul r 255))) @ '', ''
           @ str (of_int (round (num_mul g 255))) @ '', ''
           @ str (of_int (round (num_mul b 255))) @ '', ''
           @ str (case fill_opacity f of Num v \<Rightarrow> v | _ \<Rightarrow> 1) @ '')'')
   \<and> 0 \<le> round (num_mul r 255) \<and> round (num_mul r 255) \<le> 255
   \<and> 0 \<le> round (num_mul g 255) \<and> round (num_mul g 255) \<le> 255
   \<and> 0 \<le> round (num_mul b 255) \<and> round (num_mul b 255) \<le> 255
   \<and> fillToCssColor str None = None
   \<and> (fill_type other \<noteq> ''SOLID'' \<longrightarrow> fillToCssColor str (Some other) = None)"
proof -
  assume solid: "fill_type f = ''SOLID''" and col: "fill_color f = Some c"
    and r: "color_r c = Some r" and g: "color_g c = Some g" and b: "color_b c = Some b"
    and r01: "0 \<le> r \<and> r \<le> 1" and g01: "0 \<le> g \<and> g \<le> 1" and b01: "0 \<le> b \<and> b \<le> 1"
  have css: "fillToCssColor str (Some f) =
     Some (''rgba('' @ str (of_int (round (num_mul r 255))) @ '', ''
           @ str (of_int (round (num_mul g 255))) @ '', ''
           @ str (of_int (round (num_mul b 255))) @ '', ''
           @ str (case fill_opacity f of Num v \<Rightarrow> v | _ \<Rightarrow> 1) @ '')'')"
    using solid col r g b
    by (cases "fill_opacity f") (simp_all add: fillToCssColor_def colorObjToRgba_def)
  have none: "fillToCssColor str None = None"
    by (simp add: fillToCssColor_def)
  have other: "fillToCssColor str (Some other) = None" if "fill_type other \<noteq> ''SOLID''"
    using that by (simp add: fillToCssColor_def split: option.split)
  from r01 have "0 \<le> round (num_mul r 255) \<and> round (num_mul r 255) \<le> 255"
    by (simp add: round_num_mul_channel)
  moreover from g01 have "0 \<le> round (num_mul g 255) \<and> round (num_mul g 255) \<le> 255"
    by (simp add: round_num_mul_channel)
  moreover from b01 have "0 \<le> round (num_mul b 255) \<and> round (num_mul b 255) \<le> 255"
    by (simp add: round_num_mul_channel)
  ultimately show ?thesis using css none other by blast
qed

text \<open>
  The theorem at a grey of opacity 0 with the channels \<open>1/2\<close>, whose product \<open>127.5\<close> is
  rounded to 128; at a fill whose channels are the double nearest to \<open>0.3\<close> and whose
  opacity is a string, where the product of doubles is \<open>76.5\<close> and the channel 77; and at
  a gradient.
\<close>

theorem fillToCssColor_solid_witness:
  "fill_type ex_grey = ''SOLID''
   \<and> fill_color ex_grey = Some \<lparr>color_r = Some (1 / 2), color_g = Some (1 / 2), color_b = Some (1 / 2)\<rparr>
   \<and> fill_opacity ex_grey = Num 0
   \<and> (0 :: real) \<le> 1 / 2 \<and> (1 / 2 :: real) \<le> 1
   \<and> fillToCssColor decimal (Some ex_grey) = Some ''rgba(128, 128, 128, 0)''
   \<and> fill_type ex_dim = ''SOLID''
   \<and> fill_opacity ex_dim = Str ''0.5''
   \<and> num_mul (5404319552844595 / 2 ^ 54) 255 = 153 / 2
   \<and> fillToCssColor decimal (Some ex_dim) = Some ''rgba(77, 77, 77, 1)''
   \<and> fill_type ex_gradient \<noteq> ''SOLID''
   \<and> fillToCssColor decimal (Some ex_gradient) = None"
proof -
  have t: "fill_type ex_grey = ''SOLID''"
    and c: "fill_color ex_grey
              = Some \<lparr>color_r = Some (1 / 2), color_g = Some (1 / 2), color_b = Some (1 / 2)\<rparr>"
    and o: "fill_opacity ex_grey = Num 0"
    and g: "fill_type ex_gradient \<noteq> ''SOLID''"
    by (simp_all add: ex_grey_def ex_gradient_def)
  have h: "(0 :: real) \<le> 1 / 2 \<and> (1 / 2 :: real) \<le> 1"
    by simp
  have half: "num_mul (1 / 2) 255 = 255 / 2"
    by (simp add: num_eval)
  have d: "decimal (of_int (round (255 / 2 :: real))) = ''128''" "decimal 0 = ''0''"
    by (simp_all add: decimal_def round_def)
  have rgb: "color_r \<lparr>color_r = Some (1 / 2), color_g = Some (1 / 2), color_b = Some (1 / 2)\<rparr> = Some (1 / 2)"
    "color_g \<lparr>color_r = Some (1 / 2), color_g = Some (1 / 2), color_b = Some (1 / 2)\<rparr> = Some (1 / 2)"
    "color_b \<lparr>color_r = Some (1 / 2), color_g = Some (1 / 2), color_b = Some (1 / 2)\<rparr> = Some (1 / 2)"
    by simp_all
  from fillToCssColor_solid [OF t c rgb h h h, of decimal ex_gradient]
  have grey: "fillToCssColor decimal (Some ex_grey) = Some ''rgba(128, 128, 128, 0)''"
    and grad: "fillToCssColor decimal (Some ex_gradient) = None"
    using g by (simp_all add: o half d)
  have t': "fill_type ex_dim = ''SOLID''" and o': "fill_opacity ex_dim = Str ''0.5''"
    and c': "fill_color ex_dim
               = Some \<lparr>color_r = Some (5404319552844595 / 2 ^ 54),
                        color_g = Some (5404319552844595 / 2 ^ 54),
                        color_b = Some (5404319552844595 / 2 ^ 54)\<rparr>"
    by (simp_all add: ex_dim_def)
  have rgb': "color_r \<lparr>color_r = Some (5404319552844595 / 2 ^ 54),
                        color_g = Some (5404319552844595 / 2 ^ 54),
                        color_b = Some (5404319552844595 / 2 ^ 54)\<rparr>
                = Some (5404319552844595 / 2 ^ 54)"
    "color_g \<lparr>color_r = Some (5404319552844595 / 2 ^ 54),
               color_g = Some (5404319552844595 / 2 ^ 54),
               color_b = Some (5404319552844595 / 2 ^ 54)\<rparr>
                = Some (5404319552844595 / 2 ^ 54)"
    "color_b \<lparr>color_r = Some (5404319552844595 / 2 ^ 54),
               color_g = Some (5404319552844595 / 2 ^ 54),
               color_b = Some (5404319552844595 / 2 ^ 54)\<rparr>
                = Some (5404319552844595 / 2 ^ 54)"
    by simp_all
  have h': "(0 :: real) \<le> 5404319552844595 / 2 ^ 54 \<and> (5404319552844595 / 2 ^ 54 :: real) \<le> 1"
    by simp
  have dim: "num_mul (5404319552844595 / 2 ^ 54) 255 = 153 / 2"
    by code_simp
  have dim': "num_mul (5404319552844595 / 18014398509481984) 255 = 153 / 2"
    by code_simp
  have d': "decimal (of_int (round (153 / 2 :: real))) = ''77''" "decimal 1 = ''1''"
    by (simp_all add: decimal_def round_def)
  from fillToCssColor_solid [OF t' c' rgb' h' h' h', of decimal ex_gradient]
  have "fillToCssColor decimal (Some ex_dim) = Some ''rgba(77, 77, 77, 1)''"
    by (simp add: o' dim' d')
  with t c o h grey grad g t' o' dim show ?thesis by blast
qed

text \<open>
  Claim C10. A fill of kind \<open>SOLID\<close> without a colour yields no colour, and a node whose
  first fill is such a fill gets no background declaration in its fragment: the
  fragment is made of the node's style declarations, and none of them declares a
  background.
\<close>

theorem fillToCssColor_solid_without_color:
  "fill_type f = ''SOLID'' \<Longrightarrow> fill_color f = None \<Longrightarrow>
   fillToCssColor str (Some f) = None
   \<and> (fills n = Some (f # fs) \<longrightarrow>
        nodeToJsx_bg str n = None
        \<and> \<not> has_background (nodeToJsx_styleParts str n frameBox)
        \<and> nodeToJsx str n frameBox =
            ''<div style={{'' @ join '', '' (nodeToJsx_styleParts str n frameBox) @ ''}}>''
              @ nodeToJsx_content n @ ''</div>'')"
  by (simp add: has_background_styleParts nodeToJsx_bg_first_fill nodeToJsx_def)
    (simp add: fillToCssColor_def)

text \<open>
  The theorem at a rectangle whose fills are a solid fill without colour and then an
  opaque red: the fragment has the declarations of position and size only.
\<close>

theorem fillToCssColor_solid_without_color_witness:
  "fill_type ex_colorless = ''SOLID'' \<and> fill_color ex_colorless = None
   \<and> fills (ex_rect [ex_colorless, ex_red]) = Some (ex_colorless # [ex_red])
   \<and> fillToCssColor decimal (Some ex_colorless) = None
   \<and> \<not> has_background (nodeToJsx_styleParts decimal (ex_rect [ex_colorless, ex_red]) (Some ex_origin))
   \<and> nodeToJsx decimal (ex_rect [ex_colorless, ex_red]) (Some ex_origin)
       = ''<div style={{position: 'absolute', left: 20px, top: 30px, width: 40px, height: 30px}}></div>''"
proof -
  have t: "fill_type ex_colorless = ''SOLID''" and c: "fill_color ex_colorless = None"
    by (simp_all add: ex_colorless_def)
  have fs: "fills (ex_rect [ex_colorless, ex_red]) = Some (ex_colorless # [ex_red])"
    by (simp add: ex_rect_def)
  from fillToCssColor_solid_without_color
         [OF t c, of decimal "ex_rect [ex_colorless, ex_red]" "[ex_red]" "Some ex_origin"] fs
  have none: "fillToCssColor decimal (Some ex_colorless) = None"
    and bg: "nodeToJsx_bg decimal (ex_rect [ex_colorless, ex_red]) = None"
    and nb: "\<not> has_background
               (nodeToJsx_styleParts decimal (ex_rect [ex_colorless, ex_red]) (Some ex_origin))"
    and frag: "nodeToJsx decimal (ex_rect [ex_colorless, ex_red]) (Some ex_origin) =
       ''<div style={{''
         @ join '', '' (nodeToJsx_styleParts decimal (ex_rect [ex_colorless, ex_red]) (Some ex_origin))
         @ ''}}>'' @ nodeToJsx_content (ex_rect [ex_colorless, ex_red]) @ ''</div>''"
    by blast+
  have geo: "nodeToJsx_left (ex_rect [ex_colorless, ex_red]) (Some ex_origin) = 20"
    "nodeToJsx_top (ex_rect [ex_colorless, ex_red]) (Some ex_origin) = 30"
    "nodeToJsx_width (ex_rect [ex_colorless, ex_red]) = 40"
    "nodeToJsx_height (ex_rect [ex_colorless, ex_red]) = 30"
    by (simp_all add: nodeToJsx_left_def nodeToJsx_top_def nodeToJsx_width_def
        nodeToJsx_height_def nodeToJsx_box_def or_zero_def ex_rect_def ex_origin_def num_eval)
  have parts: "nodeToJsx_styleParts decimal (ex_rect [ex_colorless, ex_red]) (Some ex_origin)
      = [''position: 'absolute'' @ [CHR 0x27], ''left: 20px'', ''top: 30px'', ''width: 40px'',
         ''height: 30px'']"
    by (simp add: nodeToJsx_styleParts_def bg geo) (simp add: ex_rect_def decimal_def)
  have "nodeToJsx decimal (ex_rect [ex_colorless, ex_red]) (Some ex_origin)
       = ''<div style={{position: 'absolute', left: 20px, top: 30px, width: 40px, height: 30px}}></div>''"
    by (simp add: frag parts) (simp add: nodeToJsx_content_def ex_rect_def)
  with t c fs none nb show ?thesis by blast
qed







text \<open>
  Claim C8, as amended. For every node of type \<open>TEXT\<close> the body of the fragment is the
  node's \<^verbatim>\<open>characters\<close> (the empty string when absent) with each of \<open>&\<close>, \<open><\<close>, \<open>>\<close>
  replaced by its entity form. Whenever \<^verbatim>\<open>style.fontSize\<close> is present and not zero, the
  last declaration of the fragment is that font size; when the style or its font size is
  absent, or the font size is zero, the fragment declares no font size.
\<close>

theorem nodeToJsx_text:
  "node_type n = ''TEXT'' \<Longrightarrow>
   nodeToJsx str n frameBox =
     ''<div style={{'' @ join '', '' (nodeToJsx_styleParts str n frameBox) @ ''}}>''
       @ concat (map escape_char (case characters n of None \<Rightarrow> [] | Some cs \<Rightarrow> cs))
       @ ''</div>''
   \<and> (style n = Some st \<and> fontSize st = Some v \<and> v \<noteq> 0 \<longrightarrow>
        has_fontSize (nodeToJsx_styleParts str n frameBox)
        \<and> last (nodeToJsx_styleParts str n frameBox) = ''fontSize: '' @ str v @ ''px'')
   \<and> (style n = None \<or> (style n = Some st \<and> (fontSize st = None \<or> fontSize st = Some 0)) \<longrightarrow>
        \<not> has_fontSize (nodeToJsx_styleParts str n frameBox))"
proof (intro conjI impI)
  assume is_text: "node_type n = ''TEXT''"
  then show "nodeToJsx str n frameBox =
     ''<div style={{'' @ join '', '' (nodeToJsx_styleParts str n frameBox) @ ''}}>''
       @ concat (map escape_char (case characters n of None \<Rightarrow> [] | Some cs \<Rightarrow> cs))
       @ ''</div>''"
    by (simp add: nodeToJsx_def nodeToJsx_content_def escapeJsxText_chars)
  {
    assume "style n = Some st \<and> fontSize st = Some v \<and> v \<noteq> 0"
    then have fs: "nodeToJsx_fontSize n = Some v" and nz: "v \<noteq> 0"
      by (simp_all add: nodeToJsx_fontSize_def)
    from is_text fs show "has_fontSize (nodeToJsx_styleParts str n frameBox)"
      by (simp add: has_fontSize_styleParts)
    from is_text fs nz show "last (nodeToJsx_styleParts str n frameBox) = ''fontSize: '' @ str v @ ''px''"
      by (simp add: nodeToJsx_styleParts_def)
  }
  {
    assume "style n = None \<or> (style n = Some st \<and> (fontSize st = None \<or> fontSize st = Some 0))"
    then have "nodeToJsx_fontSize n = None"
      by (auto simp: nodeToJsx_fontSize_def)
    then show "\<not> has_fontSize (nodeToJsx_styleParts str n frameBox)"
      by (simp add: has_fontSize_styleParts)
  }
qed

text \<open>
  The theorem at the text node of the first end-to-end scenario, placed in its frame:
  the fragment declares \<open>left: 10\<close>, \<open>top: 20\<close>, \<open>width: 50\<close>, \<open>height: 20\<close> and
  \<open>fontSize: 16px\<close>, and its body is \<open>Hi\<close>.
\<close>

theorem nodeToJsx_text_witness:
  "node_type ex_text = ''TEXT'' \<and> style ex_text = Some \<lparr>fontSize = Some 16\<rparr>
   \<and> has_fontSize (nodeToJsx_styleParts decimal ex_text (absoluteBoundingBox ex_frame))
   \<and> last (nodeToJsx_styleParts decimal ex_text (absoluteBoundingBox ex_frame)) = ''fontSize: 16px''
   \<and> nodeToJsx decimal ex_text (absoluteBoundingBox ex_frame) =
       ''<div style={{position: 'absolute', left: 10px, top: 20px, width: 50px, height: 20px, fontSize: 16px}}>Hi</div>''"
proof -
  have is_text: "node_type ex_text = ''TEXT''" and st: "style ex_text = Some \<lparr>fontSize = Some 16\<rparr>"
    by (simp_all add: ex_text_def)
  have d: "decimal 16 = ''16''"
    by (simp add: decimal_def)
  have parts: "nodeToJsx_styleParts decimal ex_text (absoluteBoundingBox ex_frame) =
      [''position: 'absolute'' @ [CHR 0x27], ''left: 10px'', ''top: 20px'', ''width: 50px'',
       ''height: 20px'', ''fontSize: 16px'']"
    by (simp add: nodeToJsx_styleParts_def nodeToJsx_left_def nodeToJsx_top_def
        nodeToJsx_width_def nodeToJsx_height_def nodeToJsx_box_def or_zero_def nodeToJsx_bg_def
        nodeToJsx_fontSize_def ex_text_def ex_frame_def decimal_def num_eval)
  from nodeToJsx_text [OF is_text, of decimal "absoluteBoundingBox ex_frame" "\<lparr>fontSize = Some 16\<rparr>" 16] st
  have "has_fontSize (nodeToJsx_styleParts decimal ex_text (absoluteBoundingBox ex_frame))"
    and "last (nodeToJsx_styleParts decimal ex_text (absoluteBoundingBox ex_frame)) = ''fontSize: 16px''"
    and "nodeToJsx decimal ex_text (absoluteBoundingBox ex_frame) =
       ''<div style={{'' @ join '', '' (nodeToJsx_styleParts decimal ex_text (absoluteBoundingBox ex_frame))
         @ ''}}>'' @ concat (map escape_char (case characters ex_text of None \<Rightarrow> [] | Some cs \<Rightarrow> cs))
         @ ''</div>''"
    by (simp_all add: d)
  moreover have "''<div style={{'' @ join '', '' (nodeToJsx_styleParts decimal ex_text (absoluteBoundingBox ex_frame))
         @ ''}}>'' @ concat (map escape_char (case characters ex_text of None \<Rightarrow> [] | Some cs \<Rightarrow> cs))
         @ ''</div>'' =
       ''<div style={{position: 'absolute', left: 10px, top: 20px, width: 50px, height: 20px, fontSize: 16px}}>Hi</div>''"
    by (simp add: parts) (simp add: ex_text_def escape_char_def)
  ultimately show ?thesis using is_text st by simp
qed

text \<open>
  Claim C8 as stated fails: a text node whose \<^verbatim>\<open>style.fontSize\<close> is present and zero gets
  no declaration of a font size.
\<close>

theorem nodeToJsx_fontSize_zero_counterexample:
  "node_type ex_zero_font = ''TEXT'' \<and> style ex_zero_font = Some \<lparr>fontSize = Some 0\<rparr>
   \<and> \<not> has_fontSize (nodeToJsx_styleParts decimal ex_zero_font (Some ex_origin))
   \<and> nodeToJsx decimal ex_zero_font (Some ex_origin) =
       ''<div style={{position: 'absolute', left: -90px, top: -30px, width: 50px, height: 20px}}>a&lt;b</div>''"
proof -
  have fs: "nodeToJsx_fontSize ex_zero_font = None"
    by (simp add: nodeToJsx_fontSize_def ex_zero_font_def)
  have parts: "nodeToJsx_styleParts decimal ex_zero_font (Some ex_origin) =
      [''position: 'absolute'' @ [CHR 0x27], ''left: -90px'', ''top: -30px'', ''width: 50px'',
       ''height: 20px'']"
    by (simp add: nodeToJsx_styleParts_def fs)
      (simp add: nodeToJsx_left_def nodeToJsx_top_def nodeToJsx_width_def nodeToJsx_height_def
        nodeToJsx_box_def or_zero_def nodeToJsx_bg_def ex_zero_font_def ex_origin_def decimal_def
        num_eval)
  have "nodeToJsx decimal ex_zero_font (Some ex_origin) =
       ''<div style={{position: 'absolute', left: -90px, top: -30px, width: 50px, height: 20px}}>a&lt;b</div>''"
    by (simp add: nodeToJsx_def parts)
      (simp add: nodeToJsx_content_def ex_zero_font_def escapeJsxText_def replace_all_def)
  moreover have "\<not> has_fontSize (nodeToJsx_styleParts decimal ex_zero_font (Some ex_origin))"
    by (simp add: has_fontSize_styleParts fs)
  moreover have "node_type ex_zero_font = ''TEXT''" "style ex_zero_font = Some \<lparr>fontSize = Some 0\<rparr>"
    by (simp_all add: ex_zero_font_def)
  ultimately show ?thesis by simp
qed

section \<open>The assembled artifacts\<close>

lemma fallback_first_page_first_child:
  "(case children doc of
      None \<Rightarrow> None
    | Some [] \<Rightarrow> None
    | Some (page # pages) \<Rightarrow>
        (case children page of
           None \<Rightarrow> None
         | Some [] \<Rightarrow> None
         | Some (child # rest) \<Rightarrow> Some child))
     = first_page_first_child doc"
  by (simp add: first_page_first_child_def kids_def split: option.split list.split)

text \<open>
  Claim C4, as amended. \<^verbatim>\<open>generateFilesFromFigmaFile\<close> returns the full artifact mapping
  (\<open>App.jsx\<close>, \<open>index.html\<close>, \<open>package.json\<close>, \<open>README.md\<close>) when the frame locator finds a
  frame. When the locator reports not-found it builds the reduced mapping (\<open>App.jsx\<close> and
  a \<open>README.md\<close> that names the fallback frame) from the fallback node, which is the first
  child of the document's first page, if that node is present. It fails, with the error
  \<open>No frame found in file.\<close>, exactly when the locator reports not-found and the first
  page is absent or has no child. It returns nothing else: never a partial mapping.
\<close>

theorem generateFilesFromFigmaFile_outcomes:
  "generateFilesFromFigmaFile str fj nodeId =
     (case findFrameNode (document fj) nodeId of
        Some frame \<Rightarrow>
          Inr [(''App.jsx'', reactAppFromFrame str frame),
               (''index.html'', indexHtml),
               (''package.json'', packageJson),
               (''README.md'', readmeFull)]
      | None \<Rightarrow>
          (case first_page_first_child (document fj) of
             Some fb \<Rightarrow>
               Inr [(''App.jsx'', reactAppFromFrame str fb),
                    (''README.md'',
                     ''Generated from Figma file: fallback frame ('' @ node_name fb @ '')'')]
           | None \<Rightarrow> Inl (Error ''No frame found in file.'')))
   \<and> (generateFilesFromFigmaFile str fj nodeId = Inl (Error ''No frame found in file.''))
       = (findFrameNode (document fj) nodeId = None \<and> first_page_first_child (document fj) = None)
   \<and> (case generateFilesFromFigmaFile str fj nodeId of
         Inl e \<Rightarrow> e = Error ''No frame found in file.''
       | Inr files \<Rightarrow>
           map fst files = [''App.jsx'', ''index.html'', ''package.json'', ''README.md'']
           \<or> map fst files = [''App.jsx'', ''README.md''])"
proof -
  have eq: "generateFilesFromFigmaFile str fj nodeId =
     (case findFrameNode (document fj) nodeId of
        Some frame \<Rightarrow>
          Inr [(''App.jsx'', reactAppFromFrame str frame),
               (''index.html'', indexHtml),
               (''package.json'', packageJson),
               (''README.md'', readmeFull)]
      | None \<Rightarrow>
          (case first_page_first_child (document fj) of
             Some fb \<Rightarrow>
               Inr [(''App.jsx'', reactAppFromFrame str fb),
                    (''README.md'',
                     ''Generated from Figma file: fallback frame ('' @ node_name fb @ '')'')]
           | None \<Rightarrow> Inl (Error ''No frame found in file.'')))"
    by (simp only: generateFilesFromFigmaFile_def Let_def fallback_first_page_first_child)
  have fails: "(generateFilesFromFigmaFile str fj nodeId = Inl (Error ''No frame found in file.''))
       = (findFrameNode (document fj) nodeId = None \<and> first_page_first_child (document fj) = None)"
    by (simp add: eq split: option.split)
  have whole: "(case generateFilesFromFigmaFile str fj nodeId of
         Inl e \<Rightarrow> e = Error ''No frame found in file.''
       | Inr files \<Rightarrow>
           map fst files = [''App.jsx'', ''index.html'', ''package.json'', ''README.md'']
           \<or> map fst files = [''App.jsx'', ''README.md''])"
    by (simp add: eq split: option.split)
  from eq fails whole show ?thesis by (intro conjI)
qed

text \<open>
  The theorem at the document of the first end-to-end scenario, where the locator finds
  the frame, and at a document without pages, where the generator fails.
\<close>

theorem generateFilesFromFigmaFile_outcomes_witness:
  "findFrameNode ex_document None = Some ex_frame
   \<and> generateFilesFromFigmaFile decimal \<lparr>document = ex_document\<rparr> None =
       Inr [(''App.jsx'', reactAppFromFrame decimal ex_frame),
            (''index.html'', indexHtml),
            (''package.json'', packageJson),
            (''README.md'', readmeFull)]
   \<and> findFrameNode ex_empty_document None = None \<and> first_page_first_child ex_empty_document = None
   \<and> generateFilesFromFigmaFile decimal \<lparr>document = ex_empty_document\<rparr> None
       = Inl (Error ''No frame found in file.'')"
proof -
  have found: "findFrameNode ex_document None = Some ex_frame"
    by (simp add: findFrameNode_def ex_document_def ex_page_def ex_frame_def)
  have lost: "findFrameNode ex_empty_document None = None" "first_page_first_child ex_empty_document = None"
    by (simp_all add: findFrameNode_def first_page_first_child_def kids_def ex_empty_document_def)
  from generateFilesFromFigmaFile_outcomes [of decimal "\<lparr>document = ex_document\<rparr>" None] found
  have "generateFilesFromFigmaFile decimal \<lparr>document = ex_document\<rparr> None =
       Inr [(''App.jsx'', reactAppFromFrame decimal ex_frame),
            (''index.html'', indexHtml),
            (''package.json'', packageJson),
            (''README.md'', readmeFull)]"
    by simp
  moreover from generateFilesFromFigmaFile_outcomes [of decimal "\<lparr>document = ex_empty_document\<rparr>" None] lost
  have "generateFilesFromFigmaFile decimal \<lparr>document = ex_empty_document\<rparr> None
          = Inl (Error ''No frame found in file.'')"
    by simp
  ultimately show ?thesis using found lost by simp
qed

text \<open>
  Claim C4 as stated fails. In a document whose only page holds one text node without
  children, the locator reports not-found and the first child of the first page's first
  child is absent, yet the generator does not fail: it returns the reduced mapping built
  from the text node, the first child of the first page.
\<close>

theorem generateFilesFromFigmaFile_fallback_counterexample:
  "findFrameNode ex_frameless_document None = None
   \<and> first_page_first_child ex_frameless_document = Some ex_lonely_text
   \<and> first_child_of_first_page_first_child ex_frameless_document = None
   \<and> generateFilesFromFigmaFile decimal \<lparr>document = ex_frameless_document\<rparr> None =
       Inr [(''App.jsx'', reactAppFromFrame decimal ex_lonely_text),
            (''README.md'', ''Generated from Figma file: fallback frame (Title)'')]
   \<and> generateFilesFromFigmaFile decimal \<lparr>document = ex_frameless_document\<rparr> None
       \<noteq> Inl (Error ''No frame found in file.'')"
proof -
  have lost: "findFrameNode ex_frameless_document None = None"
    by (simp add: findFrameNode_def ex_frameless_document_def ex_lonely_text_def)
  have child: "first_page_first_child ex_frameless_document = Some ex_lonely_text"
    by (simp add: first_page_first_child_def kids_def ex_frameless_document_def)
  have grandchild: "first_child_of_first_page_first_child ex_frameless_document = None"
    by (simp add: first_child_of_first_page_first_child_def child)
      (simp add: kids_def ex_lonely_text_def)
  have "generateFilesFromFigmaFile decimal \<lparr>document = ex_frameless_document\<rparr> None =
       Inr [(''App.jsx'', reactAppFromFrame decimal ex_lonely_text),
            (''README.md'', ''Generated from Figma file: fallback frame (Title)'')]"
    by (simp add: generateFilesFromFigmaFile_def lost)
      (simp add: ex_frameless_document_def, simp add: ex_lonely_text_def)
  with lost child grandchild show ?thesis by simp
qed

end
